theory Spec2Isabelle
  imports Main "HOL-Library.Sublist"
begin

section \<open>Strings and characters\<close>

text \<open>
  Python strings are modelled as \<^typ>\<open>string\<close>: a list of characters, each a code point
  below 256. The double quote and the backslash cannot be written inside a string
  literal, so they are named.
\<close>

definition dquote :: char where
  "dquote = CHR 0x22"

definition backslash :: char where
  "backslash = CHR 0x5C"

text \<open>
  The characters that the class \<^verbatim>\<open>\s\<close> of a Python 3 \<^verbatim>\<open>str\<close> pattern matches, among the
  code points below 256: tab, line feed, vertical tab, form feed, carriage return, the
  four separators 0x1C to 0x1F, space, next line (0x85) and no-break space (0xA0).
\<close>

definition is_space :: "char \<Rightarrow> bool" where
  "is_space c = (c \<in> set [CHR 0x09, CHR 0x0A, CHR 0x0B, CHR 0x0C, CHR 0x0D,
                           CHR 0x1C, CHR 0x1D, CHR 0x1E, CHR 0x1F, CHR 0x20,
                           CHR 0x85, CHR 0xA0])"

section \<open>Regular expressions, as far as the source uses them\<close>

text \<open>
  The source searches with
  \<^verbatim>\<open>re.search(r'response_url\s*=\s*"(https:[^"]+)"', auth_response)\<close>.
  The pattern is a sequence of items: literal text, a greedy star or plus over a
  character class, and the two ends of the capturing group.
\<close>

datatype cclass = Whitespace | NotChar char

fun in_class :: "cclass \<Rightarrow> char \<Rightarrow> bool" where
  "in_class Whitespace c = is_space c"
| "in_class (NotChar x) c = (c \<noteq> x)"

datatype item = Lit string | Star cclass | Plus cclass | GroupOpen | GroupClose

fun first_some :: "'a option list \<Rightarrow> 'a option" where
  "first_some [] = None"
| "first_some (Some x # _) = Some x"
| "first_some (None # xs) = first_some xs"

text \<open>
  \<open>re_match items g cap s\<close> matches the items at the start of \<open>s\<close>, as a backtracking
  matcher does: a star or plus first takes as many characters as the class allows and
  gives them back one at a time while the rest of the pattern fails. \<open>g\<close> says whether the
  group is open and \<open>cap\<close> is the text captured so far. The result is the captured text
  and the unread input.
\<close>

fun re_match :: "item list \<Rightarrow> bool \<Rightarrow> string \<Rightarrow> string \<Rightarrow> (string \<times> string) option" where
  "re_match [] g cap s = Some (cap, s)"
| "re_match (Lit l # is) g cap s =
     (if prefix l s
      then re_match is g (if g then cap @ l else cap) (drop (length l) s)
      else None)"
| "re_match (Star k # is) g cap s =
     first_some (map (\<lambda>n. re_match is g (if g then cap @ take n s else cap) (drop n s))
                     (rev [0 ..< Suc (length (takeWhile (in_class k) s))]))"
| "re_match (Plus k # is) g cap s =
     first_some (map (\<lambda>n. re_match is g (if g then cap @ take n s else cap) (drop n s))
                     (rev [1 ..< Suc (length (takeWhile (in_class k) s))]))"
| "re_match (GroupOpen # is) g cap s = re_match is True [] s"
| "re_match (GroupClose # is) g cap s = re_match is False cap s"

text \<open>
  \<^verbatim>\<open>re.search\<close>: the first position of the string, from the left, where the pattern
  matches; the end of the string is a position too. The result is group 1.
\<close>

fun re_search :: "item list \<Rightarrow> string \<Rightarrow> string option" where
  "re_search p [] = (case re_match p False [] [] of Some (cap, _) \<Rightarrow> Some cap | None \<Rightarrow> None)"
| "re_search p (c # s) =
     (case re_match p False [] (c # s) of
        Some (cap, _) \<Rightarrow> Some cap
      | None \<Rightarrow> re_search p s)"

definition TICKET_PATTERN :: "item list" where
  "TICKET_PATTERN =
     [Lit ''response_url'', Star Whitespace, Lit ''='', Star Whitespace, Lit [dquote],
      GroupOpen, Lit ''https:'', Plus (NotChar dquote), GroupClose, Lit [dquote]]"

section \<open>Errors\<close>

text \<open>
  The exceptions the source raises, each with its message, and those of the libraries it
  calls: \<^verbatim>\<open>AttributeError\<close> from a method call on \<^verbatim>\<open>None\<close>,
  \<^verbatim>\<open>OverflowError\<close> from date arithmetic, \<^verbatim>\<open>JSONDecodeError\<close> from
  \<^verbatim>\<open>json.loads\<close>, \<^verbatim>\<open>ConnectionError\<close> from the HTTP transport.
\<close>

datatype error =
    PyException string
  | ValueError string
  | RuntimeError string
  | AttributeError
  | OverflowError
  | JSONDecodeError
  | ConnectionError

section \<open>The ticket URL extractor\<close>

definition extract_auth_ticket_url :: "string \<Rightarrow> error + string" where
  "extract_auth_ticket_url auth_response =
     (case re_search TICKET_PATTERN auth_response of
        None \<Rightarrow> Inl (RuntimeError ''auth failure: unable to extract auth ticket URL'')
      | Some g \<Rightarrow> Inr (filter (\<lambda>c. c \<noteq> backslash) g))"


section \<open>Decimal numbers and padding\<close>

definition digit_char :: "nat \<Rightarrow> char" where
  "digit_char n = ''0123456789'' ! (n mod 10)"

fun str_nat :: "nat \<Rightarrow> string" where
  "str_nat n = (if n < 10 then [digit_char n] else str_nat (n div 10) @ [digit_char (n mod 10)])"

declare str_nat.simps [simp del]

text \<open>Python's \<^verbatim>\<open>str\<close> of an integer, also what \<^verbatim>\<open>%d\<close> and \<^verbatim>\<open>{}\<close> print.\<close>

definition str_int :: "int \<Rightarrow> string" where
  "str_int i = (if i < 0 then CHR ''-'' # str_nat (nat (- i)) else str_nat (nat i))"

definition zfill :: "nat \<Rightarrow> string \<Rightarrow> string" where
  "zfill w s = replicate (w - length s) CHR ''0'' @ s"

section \<open>Dates\<close>

text \<open>
  A \<^verbatim>\<open>datetime.datetime\<close> value. The calendar functions follow the standard library's
  \<^verbatim>\<open>_is_leap\<close>, \<^verbatim>\<open>_days_before_year\<close>, \<^verbatim>\<open>_days_in_month\<close>, \<^verbatim>\<open>_days_before_month\<close>,
  \<^verbatim>\<open>_ymd2ord\<close> and \<^verbatim>\<open>_ord2ymd\<close>: day 1 is 1 January of year 1 in the proleptic
  Gregorian calendar.
\<close>

record datetime =
  year :: int
  month :: int
  day :: int
  hour :: int
  minute :: int
  second :: int
  microsecond :: int

definition MAXORDINAL :: int where
  "MAXORDINAL = 3652059"

definition DAYS_IN_MONTH :: "int list" where
  "DAYS_IN_MONTH = [-1, 31, 28, 31, 30, 31, 30, 31, 31, 30, 31, 30, 31]"

definition DAYS_BEFORE_MONTH :: "int list" where
  "DAYS_BEFORE_MONTH = [-1, 0, 31, 59, 90, 120, 151, 181, 212, 243, 273, 304, 334]"

definition is_leap :: "int \<Rightarrow> bool" where
  "is_leap y = (y mod 4 = 0 \<and> (y mod 100 \<noteq> 0 \<or> y mod 400 = 0))"

definition days_before_year :: "int \<Rightarrow> int" where
  "days_before_year yr = (let y = yr - 1 in y * 365 + y div 4 - y div 100 + y div 400)"

definition days_in_month :: "int \<Rightarrow> int \<Rightarrow> int" where
  "days_in_month y m = (if m = 2 \<and> is_leap y then 29 else DAYS_IN_MONTH ! nat m)"

definition days_before_month :: "int \<Rightarrow> int \<Rightarrow> int" where
  "days_before_month y m = DAYS_BEFORE_MONTH ! nat m + (if m > 2 \<and> is_leap y then 1 else 0)"

definition ymd2ord :: "int \<Rightarrow> int \<Rightarrow> int \<Rightarrow> int" where
  "ymd2ord y m d = days_before_year y + days_before_month y m + d"

definition ord2ymd :: "int \<Rightarrow> int \<times> int \<times> int" where
  "ord2ymd n0 =
     (let n = n0 - 1;
          n400 = n div 146097; n = n mod 146097;
          yr = n400 * 400 + 1;
          n100 = n div 36524; n = n mod 36524;
          n4 = n div 1461; n = n mod 1461;
          n1 = n div 365; n = n mod 365;
          yr = yr + (n100 * 100 + n4 * 4 + n1)
      in if n1 = 4 \<or> n100 = 4 then (yr - 1, 12, 31)
         else
           let leapyear = (n1 = 3 \<and> (n4 \<noteq> 24 \<or> n100 = 3));
               mo = (n + 50) div 32;
               preceding = DAYS_BEFORE_MONTH ! nat mo + (if mo > 2 \<and> leapyear then 1 else 0)
           in if preceding > n
              then let mo' = mo - 1;
                       preceding' = preceding
                         - (DAYS_IN_MONTH ! nat mo' + (if mo' = 2 \<and> leapyear then 1 else 0))
                   in (yr, mo', n - preceding' + 1)
              else (yr, mo, n - preceding + 1))"

text \<open>The date and time are valid in the sense of the constructor's checks.\<close>

definition valid_datetime :: "datetime \<Rightarrow> bool" where
  "valid_datetime d =
     (1 \<le> year d \<and> year d \<le> 9999 \<and> 1 \<le> month d \<and> month d \<le> 12 \<and>
      1 \<le> day d \<and> day d \<le> days_in_month (year d) (month d) \<and>
      0 \<le> hour d \<and> hour d < 24 \<and> 0 \<le> minute d \<and> minute d < 60 \<and>
      0 \<le> second d \<and> second d < 60 \<and> 0 \<le> microsecond d \<and> microsecond d < 1000000)"

definition toordinal :: "datetime \<Rightarrow> int" where
  "toordinal d = ymd2ord (year d) (month d) (day d)"

text \<open>
  \<^verbatim>\<open>d - datetime.timedelta(days=k)\<close>: the date moves by whole days through its ordinal,
  the time of day stays, and a result outside years 1 to 9999 raises \<^verbatim>\<open>OverflowError\<close>.
\<close>

definition sub_days :: "datetime \<Rightarrow> int \<Rightarrow> error + datetime" where
  "sub_days d k =
     (let n = toordinal d - k
      in if 0 < n \<and> n \<le> MAXORDINAL
         then (case ord2ymd n of (y, m, dd) \<Rightarrow> Inr (d\<lparr>year := y, month := m, day := dd\<rparr>))
         else Inl OverflowError)"

text \<open>
  \<^verbatim>\<open>d.strftime('%Y-%m-%d')\<close>, which hands the format to the C library: the year in
  decimal without padding, so in fewer than four digits before year 1000
  (\<^verbatim>\<open>999-03-01\<close>), the month and the day in two digits, zero-padded.
\<close>

definition strftime_Ymd :: "datetime \<Rightarrow> string" where
  "strftime_Ymd d =
     str_int (year d) @ ''-'' @ zfill 2 (str_int (month d)) @ ''-'' @
     zfill 2 (str_int (day d))"

section \<open>URL encoding\<close>

text \<open>
  \<^verbatim>\<open>urllib.parse.urlencode\<close> of a dictionary, in insertion order: each key and value
  goes through \<^verbatim>\<open>quote_plus\<close> and the pairs are joined by \<^verbatim>\<open>&\<close>. Letters, digits and
  \<^verbatim>\<open>_.-~\<close> are kept, a space becomes \<^verbatim>\<open>+\<close>, every other character becomes the
  percent-encoded bytes of its UTF-8 encoding.
\<close>

definition always_safe :: "char \<Rightarrow> bool" where
  "always_safe c =
     (c \<in> set ''ABCDEFGHIJKLMNOPQRSTUVWXYZabcdefghijklmnopqrstuvwxyz0123456789_.-~'')"

definition hex_digit :: "nat \<Rightarrow> char" where
  "hex_digit n = ''0123456789ABCDEF'' ! (n mod 16)"

definition percent_byte :: "nat \<Rightarrow> string" where
  "percent_byte b = [CHR ''%'', hex_digit (b div 16), hex_digit b]"

definition utf8 :: "char \<Rightarrow> nat list" where
  "utf8 c = (let n = of_char c in if n < 128 then [n] else [192 + n div 64, 128 + n mod 64])"

definition quote_char :: "char \<Rightarrow> string" where
  "quote_char c =
     (if always_safe c then [c]
      else if c = CHR '' '' then ''+''
      else concat (map percent_byte (utf8 c)))"

definition quote_plus :: "string \<Rightarrow> string" where
  "quote_plus s = concat (map quote_char s)"

fun join :: "string \<Rightarrow> string list \<Rightarrow> string" where
  "join sep [] = []"
| "join sep [x] = x"
| "join sep (x # y # ys) = x @ sep @ join sep (y # ys)"

definition urlencode :: "(string \<times> string) list \<Rightarrow> string" where
  "urlencode query = join ''&'' (map (\<lambda>(k, v). quote_plus k @ ''='' @ quote_plus v) query)"

section \<open>HTTP sessions\<close>

text \<open>
  The \<^verbatim>\<open>requests\<close> library, as far as the source uses it. A response carries its status,
  its body and the cookies it sets. A \<^verbatim>\<open>requests.Session\<close> owns a cookie jar, and every
  response received through the session stores its cookies there, whatever its status.
\<close>

datatype http_method = GET | POST

record request =
  req_method :: http_method
  req_url :: string
  req_params :: "(string \<times> string) list"
  req_data :: "(string \<times> string) list"

record response =
  status_code :: int
  resp_text :: string
  set_cookies :: "(string \<times> string) list"

record session =
  cookies :: "(string \<times> string) list"

fun set_cookie :: "string \<times> string \<Rightarrow> (string \<times> string) list \<Rightarrow> (string \<times> string) list" where
  "set_cookie (k, v) [] = [(k, v)]"
| "set_cookie (k, v) ((k', v') # jar) =
     (if k = k' then (k, v) # jar else (k', v') # set_cookie (k, v) jar)"

definition extract_cookies :: "(string \<times> string) list \<Rightarrow> (string \<times> string) list \<Rightarrow> (string \<times> string) list" where
  "extract_cookies cs jar = fold set_cookie cs jar"

text \<open>What \<^verbatim>\<open>json.loads\<close> returns; \<open>JNull\<close> is Python's \<^verbatim>\<open>None\<close>.\<close>

datatype json =
    JNull
  | JBool bool
  | JInt int
  | JFloat string
  | JStr string
  | JList "json list"
  | JDict "(string \<times> json) list"

text \<open>
  The surroundings of one run. The service answers a request in view of all the requests
  sent so far, or the transport fails (\<open>None\<close>, a \<^verbatim>\<open>ConnectionError\<close>). \<open>now\<close> is what
  \<^verbatim>\<open>datetime.datetime.now()\<close> returns, \<open>time_now\<close> what \<^verbatim>\<open>int(time.time())\<close> returns, and
  \<open>json_loads\<close> is \<^verbatim>\<open>json.loads\<close>, with \<open>None\<close> where it raises.
\<close>

record env =
  server :: "request list \<Rightarrow> response option"
  now :: datetime
  time_now :: int
  json_loads :: "string \<Rightarrow> json option"

datatype level = DEBUG | INFO | ERROR

text \<open>What a run leaves behind: the requests sent, in order, and the log records.\<close>

record world =
  sent :: "request list"
  logs :: "(level \<times> string) list"

definition log_msg :: "level \<Rightarrow> string \<Rightarrow> world \<Rightarrow> world" where
  "log_msg l m w = w\<lparr>logs := logs w @ [(l, m)]\<rparr>"

definition session_request :: "env \<Rightarrow> request \<Rightarrow> session \<Rightarrow> world \<Rightarrow> (error + response) \<times> session \<times> world" where
  "session_request e r s w =
     (let w' = w\<lparr>sent := sent w @ [r]\<rparr>
      in case server e (sent w') of
           None \<Rightarrow> (Inl ConnectionError, s, w')
         | Some resp \<Rightarrow>
             (Inr resp, s\<lparr>cookies := extract_cookies (set_cookies resp) (cookies s)\<rparr>, w'))"

definition session_post :: "env \<Rightarrow> string \<Rightarrow> (string \<times> string) list \<Rightarrow> (string \<times> string) list \<Rightarrow> session \<Rightarrow> world \<Rightarrow> (error + response) \<times> session \<times> world" where
  "session_post e u ps d =
     session_request e \<lparr>req_method = POST, req_url = u, req_params = ps, req_data = d\<rparr>"

definition session_get :: "env \<Rightarrow> string \<Rightarrow> session \<Rightarrow> world \<Rightarrow> (error + response) \<times> session \<times> world" where
  "session_get e u =
     session_request e \<lparr>req_method = GET, req_url = u, req_params = [], req_data = []\<rparr>"

section \<open>The client\<close>

definition SSO_LOGIN_URL :: string where
  "SSO_LOGIN_URL = ''https://sso.garmin.com/sso/login''"

definition WEIGHT_DATE_RANGE_URL :: string where
  "WEIGHT_DATE_RANGE_URL = ''https://connect.garmin.com/modern/proxy/weight-service/weight/dateRange''"

definition WELLNESS_URL :: "string \<Rightarrow> string" where
  "WELLNESS_URL u = ''https://connect.garmin.com/modern/proxy/userstats-service/wellness/daily/'' @ u"

definition LEGACY_SESSION_URL :: string where
  "LEGACY_SESSION_URL = ''https://connect.garmin.com/legacy/session''"

record client =
  username :: string
  password :: string
  session :: "session option"

definition init :: "string \<Rightarrow> string \<Rightarrow> client" where
  "init u p = \<lparr>username = u, password = p, session = None\<rparr>"

text \<open>
  \<^verbatim>\<open>_authenticate\<close>. The session object is shared with the client, so what a request
  does to the session is visible in the client also when a later step raises.
\<close>

definition claim_failure :: "string \<Rightarrow> response \<Rightarrow> string" where
  "claim_failure auth_ticket_url r =
     ''auth failure: failed to claim auth ticket: '' @ auth_ticket_url @ '': '' @
     str_int (status_code r) @ [CHR 0x0A] @ resp_text r"

definition authenticate :: "env \<Rightarrow> client \<Rightarrow> world \<Rightarrow> (error + unit) \<times> client \<times> world" where
  "authenticate e c w =
     (let w = log_msg INFO ''authenticating user ...'' w;
          form_data = [(''username'', username c), (''password'', password c),
                       (''embed'', ''false'')];
          request_params = [(''service'', ''https://connect.garmin.com/modern'')]
      in case session c of
           None \<Rightarrow> (Inl AttributeError, c, w)
         | Some s \<Rightarrow>
            (case session_post e SSO_LOGIN_URL request_params form_data s w of
               (Inl err, s, w) \<Rightarrow> (Inl err, c\<lparr>session := Some s\<rparr>, w)
             | (Inr auth_response, s, w) \<Rightarrow>
                (let c = c\<lparr>session := Some s\<rparr>;
                     w = log_msg DEBUG (''got auth response: '' @ resp_text auth_response) w
                 in if status_code auth_response \<noteq> 200
                    then (Inl (ValueError
                            ''authentication failure: did you enter valid credentials?''), c, w)
                    else
                     (case extract_auth_ticket_url (resp_text auth_response) of
                        Inl err \<Rightarrow> (Inl err, c, w)
                      | Inr auth_ticket_url \<Rightarrow>
                         (let w = log_msg DEBUG
                                    (''auth ticket url: '' @ [dquote] @ auth_ticket_url @ [dquote]) w;
                              w = log_msg INFO ''claiming auth ticket ...'' w
                          in case session_get e auth_ticket_url s w of
                               (Inl err, s, w) \<Rightarrow> (Inl err, c\<lparr>session := Some s\<rparr>, w)
                             | (Inr resp, s, w) \<Rightarrow>
                                (let c = c\<lparr>session := Some s\<rparr>
                                 in if status_code resp \<noteq> 200
                                    then (Inl (RuntimeError (claim_failure auth_ticket_url resp)), c, w)
                                    else
                                     (case session_get e LEGACY_SESSION_URL s w of
                                        (Inl err, s, w) \<Rightarrow> (Inl err, c\<lparr>session := Some s\<rparr>, w)
                                      | (Inr _, s, w) \<Rightarrow> (Inr (), c\<lparr>session := Some s\<rparr>, w))))))))"

definition connect :: "env \<Rightarrow> client \<Rightarrow> world \<Rightarrow> (error + unit) \<times> client \<times> world" where
  "connect e c w = authenticate e (c\<lparr>session := Some \<lparr>cookies = []\<rparr>\<rparr>) w"

definition disconnect :: "client \<Rightarrow> client" where
  "disconnect c = (if session c \<noteq> None then c\<lparr>session := None\<rparr> else c)"

text \<open>
  The decorator \<^verbatim>\<open>require_session\<close>: the wrapped method runs only when the client's
  \<^verbatim>\<open>session\<close> attribute is set.
\<close>

definition require_session ::
  "(env \<Rightarrow> client \<Rightarrow> world \<Rightarrow> (error + 'a) \<times> client \<times> world) \<Rightarrow>
   env \<Rightarrow> client \<Rightarrow> world \<Rightarrow> (error + 'a) \<times> client \<times> world" where
  "require_session client_function e c w =
     (if session c = None
      then (Inl (PyException ''Attempt to use GarminClient without being connected.''), c, w)
      else client_function e c w)"

text \<open>
  The end of both fetch methods: a status other than 200 is logged and gives \<^verbatim>\<open>None\<close>,
  a 200 gives the body parsed as JSON.
\<close>

definition fetch_failure :: "response \<Rightarrow> string" where
  "fetch_failure r =
     ''failed to fetch json summary: code='' @ str_int (status_code r) @ '' text='' @ resp_text r"

definition fetch_json :: "env \<Rightarrow> string \<Rightarrow> client \<Rightarrow> world \<Rightarrow> (error + json) \<times> client \<times> world" where
  "fetch_json e u c w =
     (case session c of
        None \<Rightarrow> (Inl AttributeError, c, w)
      | Some s \<Rightarrow>
         (case session_get e u s w of
            (Inl err, s, w) \<Rightarrow> (Inl err, c\<lparr>session := Some s\<rparr>, w)
          | (Inr resp, s, w) \<Rightarrow>
             (let c = c\<lparr>session := Some s\<rparr>
              in if status_code resp \<noteq> 200
                 then (Inr JNull, c, log_msg ERROR (fetch_failure resp) w)
                 else (case json_loads e (resp_text resp) of
                         None \<Rightarrow> (Inl JSONDecodeError, c, w)
                       | Some j \<Rightarrow> (Inr j, c, w)))))"

definition weight_url :: "env \<Rightarrow> datetime option \<Rightarrow> datetime option \<Rightarrow> error + string" where
  "weight_url e start end =
     (let end = (case end of None \<Rightarrow> now e | Some d \<Rightarrow> d)
      in case (case start of None \<Rightarrow> sub_days end 30 | Some d \<Rightarrow> Inr d) of
           Inl err \<Rightarrow> Inl err
         | Inr start \<Rightarrow>
            (let query_params = [(''_'', str_int (time_now e)),
                                 (''startDate'', strftime_Ymd start),
                                 (''endDate'', strftime_Ymd end)]
             in Inr (WEIGHT_DATE_RANGE_URL @ ''?'' @ urlencode query_params)))"

definition get_weight_body :: "datetime option \<Rightarrow> datetime option \<Rightarrow> env \<Rightarrow> client \<Rightarrow> world \<Rightarrow> (error + json) \<times> client \<times> world" where
  "get_weight_body start end e c w =
     (case weight_url e start end of
        Inl err \<Rightarrow> (Inl err, c, w)
      | Inr u \<Rightarrow> fetch_json e u c w)"

definition get_weight :: "datetime option \<Rightarrow> datetime option \<Rightarrow> env \<Rightarrow> client \<Rightarrow> world \<Rightarrow> (error + json) \<times> client \<times> world" where
  "get_weight start end = require_session (get_weight_body start end)"

definition calories_url :: "env \<Rightarrow> client \<Rightarrow> datetime option \<Rightarrow> datetime option \<Rightarrow> string" where
  "calories_url e c start end =
     (let query_params = [(''_'', str_int (time_now e))];
          query_params = (case start of None \<Rightarrow> query_params
                          | Some d \<Rightarrow> query_params @ [(''fromDate'', strftime_Ymd d)]);
          query_params = (case end of None \<Rightarrow> query_params
                          | Some d \<Rightarrow> query_params @ [(''untilDate'', strftime_Ymd d)]);
          u = WELLNESS_URL (username c) @ ''?'' @ urlencode query_params
      in fold (\<lambda>metric u. u @ ''&metricId='' @ str_int metric) [23, 41, 42] u)"

definition get_calories_body :: "datetime option \<Rightarrow> datetime option \<Rightarrow> env \<Rightarrow> client \<Rightarrow> world \<Rightarrow> (error + json) \<times> client \<times> world" where
  "get_calories_body start end e c w = fetch_json e (calories_url e c start end) c w"

definition get_calories :: "datetime option \<Rightarrow> datetime option \<Rightarrow> env \<Rightarrow> client \<Rightarrow> world \<Rightarrow> (error + json) \<times> client \<times> world" where
  "get_calories start end = require_session (get_calories_body start end)"

section \<open>The specification's view of the SSO response\<close>

text \<open>
  What the specification calls an assignment of the ticket URL, said without the matcher:
  the text \<open>s\<close> starts with \<^verbatim>\<open>response_url\<close>, white space, \<^verbatim>\<open>=\<close>, white space and the URL
  between double quotes, where the URL is \<^verbatim>\<open>https:\<close> followed by at least one character
  and holds no double quote.
\<close>

definition ticket_assignment_at :: "string \<Rightarrow> string \<Rightarrow> bool" where
  "ticket_assignment_at s url \<longleftrightarrow>
     (\<exists>ws1 ws2 u post.
        s = ''response_url'' @ ws1 @ ''='' @ ws2 @ [dquote] @ url @ [dquote] @ post \<and>
        (\<forall>c\<in>set ws1. is_space c) \<and> (\<forall>c\<in>set ws2. is_space c) \<and>
        url = ''https:'' @ u \<and> u \<noteq> [] \<and> dquote \<notin> set u)"

definition has_ticket_assignment :: "string \<Rightarrow> bool" where
  "has_ticket_assignment body \<longleftrightarrow>
     (\<exists>pre s url. body = pre @ s \<and> ticket_assignment_at s url)"

section \<open>Example surroundings\<close>

text \<open>
  A scripted service, as a test double would be: the n-th request of the run gets the
  n-th response of the script, and the transport fails once the script is used up.
\<close>

definition scripted :: "response option list \<Rightarrow> request list \<Rightarrow> response option" where
  "scripted rs h = (if 0 < length h \<and> length h \<le> length rs then rs ! (length h - 1) else None)"

definition example_now :: datetime where
  "example_now = \<lparr>year = 2024, month = 3, day = 1, hour = 12, minute = 34, second = 56,
                   microsecond = 0\<rparr>"

text \<open>Midnight of a day, as parsing a date without a time gives it.\<close>

definition ymd :: "int \<Rightarrow> int \<Rightarrow> int \<Rightarrow> datetime" where
  "ymd y m d = \<lparr>year = y, month = m, day = d, hour = 0, minute = 0, second = 0,
               microsecond = 0\<rparr>"

text \<open>
  A stand-in for \<^verbatim>\<open>json.loads\<close> on the bodies of the examples: the two JSON documents
  parse to what Python gives for them, any other text counts as not being JSON.
\<close>

definition example_loads :: "string \<Rightarrow> json option" where
  "example_loads s =
     (if s = ''null'' then Some JNull
      else if s = ''{'' @ [dquote] @ ''dateWeightList'' @ [dquote] @ '':[]}''
           then Some (JDict [(''dateWeightList'', JList [])])
      else None)"

definition example_env :: "response option list \<Rightarrow> env" where
  "example_env rs = \<lparr>server = scripted rs, now = example_now, time_now = 1700000000,
                      json_loads = example_loads\<rparr>"

definition empty_world :: world where
  "empty_world = \<lparr>sent = [], logs = []\<rparr>"

text \<open>The request that \<^verbatim>\<open>_authenticate\<close> posts to the login endpoint.\<close>

definition login_request :: "client \<Rightarrow> request" where
  "login_request c =
     \<lparr>req_method = POST, req_url = SSO_LOGIN_URL,
      req_params = [(''service'', ''https://connect.garmin.com/modern'')],
      req_data = [(''username'', username c), (''password'', password c), (''embed'', ''false'')]\<rparr>"

definition get_request :: "string \<Rightarrow> request" where
  "get_request u = \<lparr>req_method = GET, req_url = u, req_params = [], req_data = []\<rparr>"

definition reply :: "int \<Rightarrow> string \<Rightarrow> response" where
  "reply st body = \<lparr>status_code = st, resp_text = body, set_cookies = []\<rparr>"

text \<open>A client whose \<^verbatim>\<open>session\<close> attribute holds a session with an empty cookie jar.\<close>

definition example_client :: client where
  "example_client = \<lparr>username = ''alice'', password = ''secret'',
                      session = Some \<lparr>cookies = []\<rparr>\<rparr>"

text \<open>The canned SSO response body of the specification's examples, and its ticket URL.\<close>

definition login_page :: string where
  "login_page = ''response_url = '' @ [dquote] @ ''https://x/y?ticket=ABC'' @ [dquote]"

definition ticket_url :: string where
  "ticket_url = ''https://x/y?ticket=ABC''"

section \<open>The specification's view of a date string\<close>

definition is_digit :: "char \<Rightarrow> bool" where
  "is_digit c = (c \<in> set ''0123456789'')"

text \<open>\<^verbatim>\<open>YYYY-MM-DD\<close>: four digits, a dash, two digits, a dash, two digits and nothing else.\<close>

definition iso_date :: "string \<Rightarrow> bool" where
  "iso_date s =
     (length s = 10 \<and> list_all is_digit (take 4 s) \<and> s ! 4 = CHR ''-'' \<and>
      list_all is_digit (take 2 (drop 5 s)) \<and> s ! 7 = CHR ''-'' \<and>
      list_all is_digit (drop 8 s))"

section \<open>The matcher on the ticket pattern\<close>

lemma first_some_rev_upt:
  assumes "\<And>n. lo \<le> n \<Longrightarrow> n < m \<Longrightarrow> f n = None" and "lo \<le> m"
  shows "first_some (map f (rev [lo ..< Suc m])) = f m"
proof -
  have a: "first_some (map f (rev [lo ..< k])) = None" if "k \<le> m" for k
    using that
  proof (induction k)
    case 0 then show ?case by simp
  next
    case (Suc k)
    then show ?case using assms(1) by (cases "lo \<le> k") auto
  qed
  show ?thesis using assms(2) a[of m]
    by (cases "f m") auto
qed

lemma drop_in_takeWhile:
  assumes "n < length (takeWhile P s)"
  shows "\<exists>c t. drop n s = c # t \<and> P c"
proof -
  have n: "n < length s" using assms length_takeWhile_le[of P s] by (meson less_le_trans)
  have "P (s ! n)" using assms by (metis nth_mem set_takeWhileD takeWhile_nth)
  then show ?thesis using n by (metis Cons_nth_drop_Suc)
qed

lemma drop_length_takeWhile: "drop (length (takeWhile P s)) s = dropWhile P s"
  by (induction s) auto

lemma take_length_takeWhile: "take (length (takeWhile P s)) s = takeWhile P s"
  by (induction s) auto

lemma star_lit_step:
  assumes "\<not> in_class k c"
  shows "re_match (Star k # Lit (c # l) # is) g cap s =
         re_match (Lit (c # l) # is) g (if g then cap @ takeWhile (in_class k) s else cap)
           (dropWhile (in_class k) s)"
proof -
  let ?m = "length (takeWhile (in_class k) s)"
  let ?f = "\<lambda>n. re_match (Lit (c # l) # is) g (if g then cap @ take n s else cap) (drop n s)"
  have "?f n = None" if lt: "n < ?m" for n
  proof -
    obtain d t where "drop n s = d # t" "in_class k d" using drop_in_takeWhile[OF lt] by blast
    then show ?thesis using assms by auto
  qed
  then have "first_some (map ?f (rev [0 ..< Suc ?m])) = ?f ?m"
    by (intro first_some_rev_upt) auto
  then show ?thesis by (simp add: drop_length_takeWhile take_length_takeWhile)
qed

lemma plus_close_lit_step:
  assumes "\<not> in_class k c"
  shows "re_match (Plus k # GroupClose # Lit (c # l) # is) g cap s =
         (if takeWhile (in_class k) s = [] then None
          else re_match (Lit (c # l) # is) False (if g then cap @ takeWhile (in_class k) s else cap)
           (dropWhile (in_class k) s))"
proof (cases "takeWhile (in_class k) s = []")
  case True
  then show ?thesis by simp
next
  case False
  let ?m = "length (takeWhile (in_class k) s)"
  let ?f = "\<lambda>n. re_match (GroupClose # Lit (c # l) # is) g (if g then cap @ take n s else cap) (drop n s)"
  have m: "1 \<le> ?m" using False by (simp add: Suc_leI)
  have "?f n = None" if lt: "n < ?m" for n
  proof -
    obtain d t where "drop n s = d # t" "in_class k d" using drop_in_takeWhile[OF lt] by blast
    then show ?thesis using assms by auto
  qed
  then have "first_some (map ?f (rev [1 ..< Suc ?m])) = ?f ?m"
    using m by (intro first_some_rev_upt) auto
  then show ?thesis using False by (simp add: drop_length_takeWhile take_length_takeWhile)
qed


lemma takeWhile_append_stop:
  assumes "\<forall>x\<in>set ws. P x" and "\<not> P c"
  shows "takeWhile P (ws @ c # t) = ws" and "dropWhile P (ws @ c # t) = c # t"
  using assms by (induction ws) auto

lemma lit_iff:
  "re_match (Lit l # is) g cap s = Some r \<longleftrightarrow>
   (\<exists>t. s = l @ t \<and> re_match is g (if g then cap @ l else cap) t = Some r)"
  by (auto simp: prefix_def)

lemma star_lit_iff:
  assumes "\<not> in_class k c"
  shows "re_match (Star k # Lit (c # l) # is) g cap s = Some r \<longleftrightarrow>
         (\<exists>ws t. s = ws @ t \<and> (\<forall>x\<in>set ws. in_class k x) \<and>
            re_match (Lit (c # l) # is) g (if g then cap @ ws else cap) t = Some r)"
    (is "?L \<longleftrightarrow> ?R")
proof
  assume ?L
  then have "re_match (Lit (c # l) # is) g (if g then cap @ takeWhile (in_class k) s else cap)
           (dropWhile (in_class k) s) = Some r"
    by (simp only: star_lit_step[OF assms])
  moreover have "s = takeWhile (in_class k) s @ dropWhile (in_class k) s" by simp
  moreover have "\<forall>x\<in>set (takeWhile (in_class k) s). in_class k x"
    by (auto dest: set_takeWhileD)
  ultimately show ?R by blast
next
  assume ?R
  then obtain ws t where s: "s = ws @ t" and ws: "\<forall>x\<in>set ws. in_class k x"
    and m: "re_match (Lit (c # l) # is) g (if g then cap @ ws else cap) t = Some r"
    by blast
  from m obtain t' where t: "t = c # t'" by (auto simp: prefix_def split: if_splits)
  have "takeWhile (in_class k) s = ws" "dropWhile (in_class k) s = t"
    using takeWhile_append_stop[OF ws assms, of t'] s t by simp_all
  then show ?L using m by (simp only: star_lit_step[OF assms])
qed

lemma plus_close_lit_iff:
  assumes "\<not> in_class k c"
  shows "re_match (Plus k # GroupClose # Lit (c # l) # is) g cap s = Some r \<longleftrightarrow>
         (\<exists>u t. s = u @ t \<and> u \<noteq> [] \<and> (\<forall>x\<in>set u. in_class k x) \<and>
            re_match (Lit (c # l) # is) False (if g then cap @ u else cap) t = Some r)"
    (is "?L \<longleftrightarrow> ?R")
proof
  assume L: ?L
  then have ne: "takeWhile (in_class k) s \<noteq> []"
    by (auto simp only: plus_close_lit_step[OF assms] split: if_splits)
  with L have "re_match (Lit (c # l) # is) False (if g then cap @ takeWhile (in_class k) s else cap)
           (dropWhile (in_class k) s) = Some r"
    by (simp only: plus_close_lit_step[OF assms] if_False)
  moreover have "s = takeWhile (in_class k) s @ dropWhile (in_class k) s" by simp
  moreover have "\<forall>x\<in>set (takeWhile (in_class k) s). in_class k x"
    by (auto dest: set_takeWhileD)
  ultimately show ?R using ne by blast
next
  assume ?R
  then obtain u t where s: "s = u @ t" and ne: "u \<noteq> []" and u: "\<forall>x\<in>set u. in_class k x"
    and m: "re_match (Lit (c # l) # is) False (if g then cap @ u else cap) t = Some r"
    by blast
  from m obtain t' where t: "t = c # t'" by (auto simp: prefix_def split: if_splits)
  have "takeWhile (in_class k) s = u" "dropWhile (in_class k) s = t"
    using takeWhile_append_stop[OF u assms, of t'] s t by simp_all
  then show ?L using m ne by (simp only: plus_close_lit_step[OF assms] if_False)
qed

lemma equals_not_space: "\<not> in_class Whitespace CHR ''=''"
  by (simp add: is_space_def)
lemma dquote_not_space: "\<not> in_class Whitespace dquote"
  by (simp add: is_space_def dquote_def)
lemma dquote_not_other: "\<not> in_class (NotChar dquote) dquote"
  by simp

lemma re_match_ticket_iff:
  "(\<exists>rest. re_match TICKET_PATTERN False [] s = Some (url, rest)) \<longleftrightarrow> ticket_assignment_at s url"
  unfolding TICKET_PATTERN_def ticket_assignment_at_def
  apply (simp only: lit_iff star_lit_iff[OF equals_not_space] star_lit_iff[OF dquote_not_space]
      plus_close_lit_iff[OF dquote_not_other] re_match.simps(1,5,6) if_True if_False)
  apply (rule iffI)
   apply (clarsimp, blast)
  apply (clarsimp, blast)
  done

lemma re_match_ticket_None:
  "re_match TICKET_PATTERN False [] s = None \<longleftrightarrow> (\<forall>url. \<not> ticket_assignment_at s url)"
proof -
  have "re_match TICKET_PATTERN False [] s \<noteq> None \<longleftrightarrow> (\<exists>url. ticket_assignment_at s url)"
    using re_match_ticket_iff[of s] by (metis not_Some_eq surj_pair)
  then show ?thesis by blast
qed

lemma re_search_None:
  "re_search p s = None \<longleftrightarrow> (\<forall>i\<le>length s. re_match p False [] (drop i s) = None)"
proof (induction s)
  case Nil
  show ?case by (auto split: option.splits)
next
  case (Cons c s)
  have "(\<forall>i\<le>length (c # s). re_match p False [] (drop i (c # s)) = None) \<longleftrightarrow>
        re_match p False [] (c # s) = None \<and> (\<forall>i\<le>length s. re_match p False [] (drop i s) = None)"
    (is "?A \<longleftrightarrow> ?B")
  proof
    assume a: ?A
    have "re_match p False [] (drop (Suc i) (c # s)) = None" if "i \<le> length s" for i
      using a that by (metis Suc_le_mono length_Cons)
    then show ?B using a by force
  next
    assume b: ?B
    show ?A
    proof (intro allI impI)
      fix i assume "i \<le> length (c # s)"
      then show "re_match p False [] (drop i (c # s)) = None"
        using b by (cases i) auto
    qed
  qed
  then show ?case using Cons.IH by (auto split: option.splits)
qed

lemma re_search_first:
  assumes "re_match p False [] (drop i s) = Some (url, rest)" and "i \<le> length s"
    and "\<And>j. j < i \<Longrightarrow> re_match p False [] (drop j s) = None"
  shows "re_search p s = Some url"
  using assms
proof (induction s arbitrary: i)
  case Nil
  then show ?case by simp
next
  case (Cons c s)
  show ?case
  proof (cases i)
    case 0
    then show ?thesis using Cons.prems(1) by simp
  next
    case (Suc k)
    have h: "re_match p False [] (c # s) = None" using Cons.prems(3)[of 0] Suc by simp
    have "re_search p s = Some url"
    proof (rule Cons.IH[of k])
      show "re_match p False [] (drop k s) = Some (url, rest)" using Cons.prems(1) Suc by simp
      show "k \<le> length s" using Cons.prems(2) Suc by simp
      show "re_match p False [] (drop j s) = None" if "j < k" for j
        using Cons.prems(3)[of "Suc j"] that Suc by simp
    qed
    then show ?thesis using h by simp
  qed
qed

lemma extract_fails_iff:
  "extract_auth_ticket_url body = Inl (RuntimeError ''auth failure: unable to extract auth ticket URL'')
   \<longleftrightarrow> \<not> has_ticket_assignment body"
proof -
  have "re_search TICKET_PATTERN body = None \<longleftrightarrow> \<not> has_ticket_assignment body"
  proof
    assume n: "re_search TICKET_PATTERN body = None"
    show "\<not> has_ticket_assignment body"
    proof
      assume "has_ticket_assignment body"
      then obtain pre s url where b: "body = pre @ s" and t: "ticket_assignment_at s url"
        unfolding has_ticket_assignment_def by blast
      have "\<forall>i\<le>length body. re_match TICKET_PATTERN False [] (drop i body) = None"
        using n by (simp only: re_search_None)
      moreover have "length pre \<le> length body" using b by simp
      ultimately have "re_match TICKET_PATTERN False [] (drop (length pre) body) = None"
        by blast
      then show False using t b by (simp add: re_match_ticket_None)
    qed
  next
    assume h: "\<not> has_ticket_assignment body"
    have "re_match TICKET_PATTERN False [] (drop i body) = None" for i
    proof -
      have "body = take i body @ drop i body" by simp
      then have "\<not> ticket_assignment_at (drop i body) url" for url
        using h unfolding has_ticket_assignment_def by blast
      then show ?thesis by (simp add: re_match_ticket_None)
    qed
    then show "re_search TICKET_PATTERN body = None" by (simp add: re_search_None)
  qed
  then show ?thesis
    by (auto simp: extract_auth_ticket_url_def split: option.splits)
qed

lemma ticket_assignment_prefix:
  "ticket_assignment_at s url \<Longrightarrow> prefix ''response_url'' s"
  unfolding ticket_assignment_at_def by (auto simp: prefix_def)

lemma has_ticket_assignment_underscore:
  "has_ticket_assignment body \<Longrightarrow> CHR ''_'' \<in> set body"
  unfolding has_ticket_assignment_def ticket_assignment_at_def by auto

section \<open>The paths through authentication\<close>

lemma session_post_login:
  "session_post e SSO_LOGIN_URL [(''service'', ''https://connect.garmin.com/modern'')]
     [(''username'', username c), (''password'', password c), (''embed'', ''false'')] s w =
   session_request e (login_request c) s w"
  by (simp add: session_post_def login_request_def)

lemma session_request_Some:
  "server e (sent w @ [r]) = Some resp \<Longrightarrow>
   session_request e r s w =
     (Inr resp, s\<lparr>cookies := extract_cookies (set_cookies resp) (cookies s)\<rparr>,
      w\<lparr>sent := sent w @ [r]\<rparr>)"
  by (simp add: session_request_def Let_def)

lemma session_request_None:
  "server e (sent w @ [r]) = None \<Longrightarrow>
   session_request e r s w = (Inl ConnectionError, s, w\<lparr>sent := sent w @ [r]\<rparr>)"
  by (simp add: session_request_def Let_def)

lemma authenticate_login_rejected:
  assumes "session c = Some s" and "server e (sent w @ [login_request c]) = Some r"
    and "status_code r \<noteq> 200"
  shows "authenticate e c w =
     (Inl (ValueError ''authentication failure: did you enter valid credentials?''),
      c\<lparr>session := Some (s\<lparr>cookies := extract_cookies (set_cookies r) (cookies s)\<rparr>)\<rparr>,
      w\<lparr>sent := sent w @ [login_request c],
        logs := logs w @ [(INFO, ''authenticating user ...''),
                          (DEBUG, ''got auth response: '' @ resp_text r)]\<rparr>)"
proof -
  let ?w1 = "log_msg INFO ''authenticating user ...'' w"
  have "server e (sent ?w1 @ [login_request c]) = Some r"
    using assms(2) by (simp add: log_msg_def)
  then have "session_request e (login_request c) s ?w1 =
     (Inr r, s\<lparr>cookies := extract_cookies (set_cookies r) (cookies s)\<rparr>,
      ?w1\<lparr>sent := sent ?w1 @ [login_request c]\<rparr>)"
    by (rule session_request_Some)
  then show ?thesis
    using assms(1,3)
    by (simp add: authenticate_def Let_def session_post_login log_msg_def)
qed

lemma session_get_request:
  "session_get e u s w = session_request e (get_request u) s w"
  by (simp add: session_get_def get_request_def)

lemma sent_log_msg [simp]: "sent (log_msg l m w) = sent w"
  by (simp add: log_msg_def)

lemma authenticate_no_ticket:
  assumes "session c = Some s" and "server e (sent w @ [login_request c]) = Some r"
    and "status_code r = 200" and "extract_auth_ticket_url (resp_text r) = Inl err"
  shows "authenticate e c w =
     (Inl err,
      c\<lparr>session := Some (s\<lparr>cookies := extract_cookies (set_cookies r) (cookies s)\<rparr>)\<rparr>,
      w\<lparr>sent := sent w @ [login_request c],
        logs := logs w @ [(INFO, ''authenticating user ...''),
                          (DEBUG, ''got auth response: '' @ resp_text r)]\<rparr>)"
proof -
  let ?w1 = "log_msg INFO ''authenticating user ...'' w"
  have "server e (sent ?w1 @ [login_request c]) = Some r"
    using assms(2) by simp
  then have "session_request e (login_request c) s ?w1 =
     (Inr r, s\<lparr>cookies := extract_cookies (set_cookies r) (cookies s)\<rparr>,
      ?w1\<lparr>sent := sent ?w1 @ [login_request c]\<rparr>)"
    by (rule session_request_Some)
  then show ?thesis
    using assms(1,3,4)
    by (simp add: authenticate_def Let_def session_post_login log_msg_def)
qed

lemma authenticate_success:
  assumes "session c = Some s"
    and "server e (sent w @ [login_request c]) = Some r1" and "status_code r1 = 200"
    and "extract_auth_ticket_url (resp_text r1) = Inr u"
    and "server e (sent w @ [login_request c, get_request u]) = Some r2"
    and "status_code r2 = 200"
    and "server e (sent w @ [login_request c, get_request u, get_request LEGACY_SESSION_URL])
           = Some r3"
  shows "authenticate e c w =
     (Inr (),
      c\<lparr>session := Some (s\<lparr>cookies :=
          extract_cookies (set_cookies r3) (extract_cookies (set_cookies r2)
            (extract_cookies (set_cookies r1) (cookies s)))\<rparr>)\<rparr>,
      w\<lparr>sent := sent w @ [login_request c, get_request u, get_request LEGACY_SESSION_URL],
        logs := logs w @ [(INFO, ''authenticating user ...''),
                          (DEBUG, ''got auth response: '' @ resp_text r1),
                          (DEBUG, ''auth ticket url: '' @ [dquote] @ u @ [dquote]),
                          (INFO, ''claiming auth ticket ...'')]\<rparr>)"
  using assms
  by (simp add: authenticate_def Let_def session_post_login session_get_request
      session_request_def log_msg_def)

section \<open>The end of a fetch\<close>

lemma fetch_json_response:
  assumes "session c = Some s" and "server e (sent w @ [get_request u]) = Some r"
  shows "fetch_json e u c w =
     (if status_code r \<noteq> 200 then Inr JNull
      else (case json_loads e (resp_text r) of None \<Rightarrow> Inl JSONDecodeError | Some j \<Rightarrow> Inr j),
      c\<lparr>session := Some (s\<lparr>cookies := extract_cookies (set_cookies r) (cookies s)\<rparr>)\<rparr>,
      w\<lparr>sent := sent w @ [get_request u],
        logs := (if status_code r \<noteq> 200 then logs w @ [(ERROR, fetch_failure r)] else logs w)\<rparr>)"
  using assms
  by (simp add: fetch_json_def session_get_request session_request_def Let_def log_msg_def
      split: option.splits)

lemma extract_login_page: "extract_auth_ticket_url login_page = Inr ticket_url"
  by code_simp

lemma str_int_404: "str_int 404 = ''404''"
  by (simp add: str_int_def str_nat.simps digit_char_def)

lemma connect_leaves_session:
  "session (fst (snd (connect e c w))) \<noteq> None"
  by (auto simp: connect_def authenticate_def Let_def session_post_def session_get_def
      session_request_def split: prod.splits sum.splits option.splits if_splits)

section \<open>The calendar\<close>

lemma div_mod_unique:
  fixes a b q r :: int
  assumes "a = b * q + r" "0 \<le> r" "r < b"
  shows "a div b = q" and "a mod b = r"
  using assms by (simp_all add: int_div_pos_eq int_mod_pos_eq)

lemma days_before_year_cycle:
  assumes "0 \<le> b" "b \<le> 3" "0 \<le> c" "c \<le> 24" "0 \<le> d" "d \<le> 3"
  shows "days_before_year (400 * a + 100 * b + 4 * c + d + 1) =
         146097 * a + 36524 * b + 1461 * c + 365 * d"
proof -
  let ?y = "400 * a + 100 * b + 4 * c + d"
  have 4: "?y div 4 = 100 * a + 25 * b + c"
    by (rule div_mod_unique(1)[where r = d]) (use assms in auto)
  have 100: "?y div 100 = 4 * a + b"
    by (rule div_mod_unique(1)[where r = "4 * c + d"]) (use assms in auto)
  have 400: "?y div 400 = a"
    by (rule div_mod_unique(1)[where r = "100 * b + 4 * c + d"]) (use assms in auto)
  show ?thesis
    by (simp add: days_before_year_def Let_def 4 100 400)
qed

lemma is_leap_cycle:
  assumes "0 \<le> b" "b \<le> 3" "0 \<le> c" "c \<le> 24" "0 \<le> d" "d \<le> 3"
  shows "is_leap (400 * a + 100 * b + 4 * c + d + 1) \<longleftrightarrow> d = 3 \<and> (c \<noteq> 24 \<or> b = 3)"
proof -
  let ?y = "400 * a + 100 * b + 4 * c + d + 1"
  have m4: "?y mod 4 = 0 \<longleftrightarrow> d = 3"
  proof (cases "d = 3")
    case True
    have "?y mod 4 = 0"
      by (rule div_mod_unique(2)[where q = "100 * a + 25 * b + c + 1"]) (use True in auto)
    then show ?thesis using True by simp
  next
    case False
    have "?y mod 4 = d + 1"
      by (rule div_mod_unique(2)[where q = "100 * a + 25 * b + c"]) (use False assms in auto)
    then show ?thesis using False assms by simp
  qed
  have m100: "?y mod 100 = 0 \<longleftrightarrow> c = 24 \<and> d = 3"
  proof (cases "c = 24 \<and> d = 3")
    case True
    have "?y mod 100 = 0"
      by (rule div_mod_unique(2)[where q = "4 * a + b + 1"]) (use True in auto)
    then show ?thesis using True by simp
  next
    case False
    have "?y mod 100 = 4 * c + d + 1"
      by (rule div_mod_unique(2)[where q = "4 * a + b"]) (use False assms in auto)
    then show ?thesis using False assms by auto
  qed
  have m400: "?y mod 400 = 0 \<longleftrightarrow> b = 3 \<and> c = 24 \<and> d = 3"
  proof (cases "b = 3 \<and> c = 24 \<and> d = 3")
    case True
    have "?y mod 400 = 0"
      by (rule div_mod_unique(2)[where q = "a + 1"]) (use True in auto)
    then show ?thesis using True by simp
  next
    case False
    have "?y mod 400 = 100 * b + 4 * c + d + 1"
      by (rule div_mod_unique(2)[where q = "a"]) (use False assms in auto)
    then show ?thesis using False assms by auto
  qed
  show ?thesis unfolding is_leap_def m4 m100 m400 by auto
qed


lemma month_day_regular:
  fixes r :: int
  assumes "0 \<le> r" "r \<le> (if leap then 365 else 364)"
    and mo: "mo = (r + 50) div 32"
    and pr: "preceding = DAYS_BEFORE_MONTH ! nat mo + (if mo > 2 \<and> leap then 1 else 0)"
    and res: "res = (if preceding > r
                   then (mo - 1, r - (preceding - (DAYS_IN_MONTH ! nat (mo - 1)
                                    + (if mo - 1 = 2 \<and> leap then 1 else 0))) + 1)
                   else (mo, r - preceding + 1))"
  shows "1 \<le> fst res \<and> fst res \<le> 12 \<and> 1 \<le> snd res \<and>
         snd res \<le> (if fst res = 2 \<and> leap then 29 else DAYS_IN_MONTH ! nat (fst res)) \<and>
         DAYS_BEFORE_MONTH ! nat (fst res) + (if fst res > 2 \<and> leap then 1 else 0) + snd res = r + 1"
proof -
  have b: "32 * mo \<le> r + 50" "r + 50 < 32 * mo + 32"
    unfolding mo by presburger+
  have "1 \<le> mo" "mo \<le> 12" using b assms(1,2) by (auto split: if_splits)
  then have "mo = 1 \<or> mo = 2 \<or> mo = 3 \<or> mo = 4 \<or> mo = 5 \<or> mo = 6 \<or> mo = 7 \<or> mo = 8
      \<or> mo = 9 \<or> mo = 10 \<or> mo = 11 \<or> mo = 12"
    by presburger
  then consider "mo = 1" | "mo = 2" | "mo = 3" | "mo = 4" | "mo = 5" | "mo = 6"
    | "mo = 7" | "mo = 8" | "mo = 9" | "mo = 10" | "mo = 11" | "mo = 12"
    by blast
  then show ?thesis
  proof cases
    case 1 then show ?thesis using b assms(1,2)
      by (auto simp: res pr DAYS_BEFORE_MONTH_def DAYS_IN_MONTH_def)
  next
    case 2 then show ?thesis using b assms(1,2)
      by (auto simp: res pr DAYS_BEFORE_MONTH_def DAYS_IN_MONTH_def)
  next
    case 3 then show ?thesis using b assms(1,2)
      by (auto simp: res pr DAYS_BEFORE_MONTH_def DAYS_IN_MONTH_def)
  next
    case 4 then show ?thesis using b assms(1,2)
      by (auto simp: res pr DAYS_BEFORE_MONTH_def DAYS_IN_MONTH_def)
  next
    case 5 then show ?thesis using b assms(1,2)
      by (auto simp: res pr DAYS_BEFORE_MONTH_def DAYS_IN_MONTH_def)
  next
    case 6 then show ?thesis using b assms(1,2)
      by (auto simp: res pr DAYS_BEFORE_MONTH_def DAYS_IN_MONTH_def)
  next
    case 7 then show ?thesis using b assms(1,2)
      by (auto simp: res pr DAYS_BEFORE_MONTH_def DAYS_IN_MONTH_def)
  next
    case 8 then show ?thesis using b assms(1,2)
      by (auto simp: res pr DAYS_BEFORE_MONTH_def DAYS_IN_MONTH_def)
  next
    case 9 then show ?thesis using b assms(1,2)
      by (auto simp: res pr DAYS_BEFORE_MONTH_def DAYS_IN_MONTH_def)
  next
    case 10 then show ?thesis using b assms(1,2)
      by (auto simp: res pr DAYS_BEFORE_MONTH_def DAYS_IN_MONTH_def)
  next
    case 11 then show ?thesis using b assms(1,2)
      by (auto simp: res pr DAYS_BEFORE_MONTH_def DAYS_IN_MONTH_def)
  next
    case 12 then show ?thesis using b assms(1,2)
      by (auto simp: res pr DAYS_BEFORE_MONTH_def DAYS_IN_MONTH_def)
  qed
qed

lemma ord2ymd_correct:
  assumes "1 \<le> n0"
  shows "case ord2ymd n0 of (y, m, dd) \<Rightarrow>
           1 \<le> y \<and> 1 \<le> m \<and> m \<le> 12 \<and> 1 \<le> dd \<and> dd \<le> days_in_month y m \<and>
           ymd2ord y m dd = n0"
proof -
  define n where "n = n0 - 1"
  define a where "a = n div 146097"
  define R400 where "R400 = n mod 146097"
  define b where "b = R400 div 36524"
  define R100 where "R100 = R400 mod 36524"
  define c where "c = R100 div 1461"
  define R4 where "R4 = R100 mod 1461"
  define d where "d = R4 div 365"
  define r where "r = R4 mod 365"
  define leap where "leap \<longleftrightarrow> d = 3 \<and> (c \<noteq> 24 \<or> b = 3)"
  define mo where "mo = (r + 50) div 32"
  define preceding where
    "preceding = DAYS_BEFORE_MONTH ! nat mo + (if mo > 2 \<and> leap then 1 else 0)"
  define res where
    "res = (if preceding > r
            then (mo - 1, r - (preceding - (DAYS_IN_MONTH ! nat (mo - 1)
                             + (if mo - 1 = 2 \<and> leap then 1 else 0))) + 1)
            else (mo, r - preceding + 1))"
  define Y where "Y = a * 400 + 1 + (b * 100 + c * 4 + d)"
  have unfold: "ord2ymd n0 =
      (if d = 4 \<or> b = 4 then (Y - 1, 12, 31)
       else if preceding > r
            then (Y, mo - 1, r - (preceding - (DAYS_IN_MONTH ! nat (mo - 1)
                             + (if mo - 1 = 2 \<and> leap then 1 else 0))) + 1)
            else (Y, mo, r - preceding + 1))"
    unfolding ord2ymd_def Let_def preceding_def mo_def leap_def Y_def r_def d_def R4_def
      c_def R100_def b_def R400_def a_def n_def
    by (rule refl)
  have n0: "0 \<le> n" using assms by (simp add: n_def)
  have e1: "n = 146097 * a + R400" "0 \<le> R400" "R400 < 146097"
    by (simp_all add: a_def R400_def)
  have e2: "R400 = 36524 * b + R100" "0 \<le> R100" "R100 < 36524"
    by (simp_all add: b_def R100_def)
  have e3: "R100 = 1461 * c + R4" "0 \<le> R4" "R4 < 1461"
    by (simp_all add: c_def R4_def)
  have e4: "R4 = 365 * d + r" "0 \<le> r" "r < 365"
    by (simp_all add: d_def r_def)
  have a0: "0 \<le> a" using n0 by (simp add: a_def pos_imp_zdiv_nonneg_iff)
  have b0: "0 \<le> b" "b \<le> 4" using e2 e1 by (simp_all add: b_def pos_imp_zdiv_nonneg_iff) 
  have c0: "0 \<le> c" "c \<le> 24" using e3 e2 by (simp_all add: c_def pos_imp_zdiv_nonneg_iff)
  have d0: "0 \<le> d" "d \<le> 4" using e4 e3 by (simp_all add: d_def pos_imp_zdiv_nonneg_iff)
  have md: "1 \<le> fst res \<and> fst res \<le> 12 \<and> 1 \<le> snd res \<and>
         snd res \<le> (if fst res = 2 \<and> leap then 29 else DAYS_IN_MONTH ! nat (fst res)) \<and>
         DAYS_BEFORE_MONTH ! nat (fst res) + (if fst res > 2 \<and> leap then 1 else 0) + snd res = r + 1"
    by (rule month_day_regular[OF _ _ mo_def preceding_def res_def]) (use e4 in auto)
  consider (century) "b = 4" | (leapday) "b \<le> 3" "d = 4" | (regular) "b \<le> 3" "d \<le> 3"
    using b0 d0 by linarith
  then show ?thesis
  proof cases
    case century
    have z: "R100 = 0" using century e1 e2 by linarith
    then have "c = 0" "R4 = 0" by (simp_all add: c_def R4_def)
    then have "d = 0" "r = 0" by (simp_all add: d_def r_def)
    have y: "Y - 1 = 400 * a + 100 * 3 + 4 * 24 + 3 + 1"
      using century \<open>c = 0\<close> \<open>d = 0\<close> by (simp add: Y_def)
    have dby: "days_before_year (Y - 1) = 146097 * a + 36524 * 3 + 1461 * 24 + 365 * 3"
      unfolding y by (rule days_before_year_cycle) simp_all
    have lp: "is_leap (Y - 1)"
      unfolding y by (subst is_leap_cycle) simp_all
    have "n0 = 146097 * a + 146097"
      using e1 e2 z century by (simp add: n_def)
    then have "ymd2ord (Y - 1) 12 31 = n0"
      using dby lp by (simp add: ymd2ord_def days_before_month_def DAYS_BEFORE_MONTH_def)
    moreover have "1 \<le> Y - 1" using a0 y by simp
    ultimately show ?thesis
      using century by (simp add: unfold days_in_month_def DAYS_IN_MONTH_def)
  next
    case leapday
    have r0: "r = 0" "R4 = 1460" using leapday e4 e3 by linarith+
    have c23: "c \<le> 23" using e3 e2 r0 by linarith
    have y: "Y - 1 = 400 * a + 100 * b + 4 * c + 3 + 1"
      using leapday by (simp add: Y_def)
    have dby: "days_before_year (Y - 1) = 146097 * a + 36524 * b + 1461 * c + 365 * 3"
      unfolding y by (rule days_before_year_cycle) (use b0 c0 c23 leapday in simp_all)
    have lp: "is_leap (Y - 1)"
      unfolding y by (subst is_leap_cycle) (use b0 c0 c23 leapday in simp_all)
    have "n0 = 146097 * a + 36524 * b + 1461 * c + 1461"
      using e1 e2 e3 r0 by (simp add: n_def)
    then have "ymd2ord (Y - 1) 12 31 = n0"
      using dby lp by (simp add: ymd2ord_def days_before_month_def DAYS_BEFORE_MONTH_def)
    moreover have "1 \<le> Y - 1" using a0 b0 c0 y by simp
    ultimately show ?thesis
      using leapday by (simp add: unfold days_in_month_def DAYS_IN_MONTH_def)
  next
    case regular
    have y: "Y = 400 * a + 100 * b + 4 * c + d + 1" by (simp add: Y_def)
    have dby: "days_before_year Y = 146097 * a + 36524 * b + 1461 * c + 365 * d"
      unfolding y by (rule days_before_year_cycle) (use b0 c0 d0 regular in simp_all)
    have lp: "is_leap Y \<longleftrightarrow> leap"
      unfolding y leap_def by (rule is_leap_cycle) (use b0 c0 d0 regular in simp_all)
    have nn: "n0 = 146097 * a + 36524 * b + 1461 * c + 365 * d + r + 1"
      using e1 e2 e3 e4 by (simp add: n_def)
    have u: "ord2ymd n0 = (Y, fst res, snd res)"
      using regular by (simp add: unfold res_def)
    have "ymd2ord Y (fst res) (snd res) = n0"
      using md dby lp nn by (simp add: ymd2ord_def days_before_month_def)
    moreover have "snd res \<le> days_in_month Y (fst res)"
      using md lp by (simp add: days_in_month_def)
    moreover have "1 \<le> Y" using a0 b0 c0 d0 y by simp
    ultimately show ?thesis using md by (simp add: u split_beta)
  qed
qed

lemma day_of_year_bound:
  assumes "1 \<le> m" "m \<le> 12" "1 \<le> d" "d \<le> days_in_month y m"
  shows "1 \<le> days_before_month y m + d"
    and "days_before_month y m + d \<le> 365 + (if is_leap y then 1 else 0)"
proof -
  have "m = 1 \<or> m = 2 \<or> m = 3 \<or> m = 4 \<or> m = 5 \<or> m = 6 \<or> m = 7 \<or> m = 8
      \<or> m = 9 \<or> m = 10 \<or> m = 11 \<or> m = 12"
    using assms(1,2) by presburger
  then show "1 \<le> days_before_month y m + d"
    and "days_before_month y m + d \<le> 365 + (if is_leap y then 1 else 0)"
    using assms(3,4)
    by (auto simp: days_before_month_def days_in_month_def DAYS_BEFORE_MONTH_def
        DAYS_IN_MONTH_def split: if_splits)
qed

lemma year_cycle_decomposition:
  assumes "1 \<le> y"
  obtains a b c d :: int where "y = 400 * a + 100 * b + 4 * c + d + 1"
    "0 \<le> a" "0 \<le> b" "b \<le> 3" "0 \<le> c" "c \<le> 24" "0 \<le> d" "d \<le> 3"
proof -
  define x where "x = y - 1"
  define a where "a = x div 400"
  define r1 where "r1 = x mod 400"
  define b where "b = r1 div 100"
  define r2 where "r2 = r1 mod 100"
  define c where "c = r2 div 4"
  define d where "d = r2 mod 4"
  have e1: "x = 400 * a + r1" "0 \<le> r1" "r1 < 400" by (simp_all add: a_def r1_def)
  have e2: "r1 = 100 * b + r2" "0 \<le> r2" "r2 < 100" by (simp_all add: b_def r2_def)
  have e3: "r2 = 4 * c + d" "0 \<le> d" "d < 4" by (simp_all add: c_def d_def)
  have "0 \<le> x" using assms by (simp add: x_def)
  then have a0: "0 \<le> a" by (simp add: a_def pos_imp_zdiv_nonneg_iff)
  have b0: "0 \<le> b" "b \<le> 3" using e1(2,3) e2 by linarith+
  have c0: "0 \<le> c" "c \<le> 24" using e2(2,3) e3 by linarith+
  have y: "y = 400 * a + 100 * b + 4 * c + d + 1" using e1 e2 e3 by (simp add: x_def)
  have d3: "d \<le> 3" using e3(3) by simp
  show ?thesis
    by (rule that[OF y a0 b0 c0 e3(2) d3])
qed

lemma ymd2ord_bounds:
  assumes "1 \<le> y" "y \<le> 9999" "1 \<le> m" "m \<le> 12" "1 \<le> d" "d \<le> days_in_month y m"
  shows "1 \<le> ymd2ord y m d" and "ymd2ord y m d \<le> MAXORDINAL"
proof -
  obtain a b c dd :: int where y: "y = 400 * a + 100 * b + 4 * c + dd + 1"
    and bd: "0 \<le> a" "0 \<le> b" "b \<le> 3" "0 \<le> c" "c \<le> 24" "0 \<le> dd" "dd \<le> 3"
    using year_cycle_decomposition[OF assms(1)] by metis
  have dby: "days_before_year y = 146097 * a + 36524 * b + 1461 * c + 365 * dd"
    unfolding y by (rule days_before_year_cycle) (use bd in simp_all)
  have lp: "is_leap y \<longleftrightarrow> dd = 3 \<and> (c \<noteq> 24 \<or> b = 3)"
    unfolding y by (rule is_leap_cycle) (use bd in simp_all)
  note doy = day_of_year_bound[OF assms(3-6)]
  show "1 \<le> ymd2ord y m d"
    using doy(1) dby bd by (simp add: ymd2ord_def)
  have a24: "a \<le> 24" using y assms(2) bd by linarith
  show "ymd2ord y m d \<le> MAXORDINAL"
  proof (cases "is_leap y")
    case True
    then have "dd = 3" "c \<le> 23 \<or> b = 3" using lp bd by auto
    moreover have "\<not> (a = 24 \<and> b = 3 \<and> c = 24)" using y assms(2) \<open>dd = 3\<close> by linarith
    ultimately have "146097 * a + 36524 * b + 1461 * c + 365 * dd + 366 \<le> 3652059"
      using bd a24 by linarith
    then show ?thesis using doy(2) dby True by (simp add: ymd2ord_def MAXORDINAL_def)
  next
    case False
    then have "dd \<le> 2 \<or> (c = 24 \<and> b \<le> 2)" using lp bd by auto
    then have "146097 * a + 36524 * b + 1461 * c + 365 * dd + 365 \<le> 3652059"
      using bd a24 by linarith
    then show ?thesis using doy(2) dby False by (simp add: ymd2ord_def MAXORDINAL_def)
  qed
qed

lemma days_before_year_lower:
  assumes "10000 \<le> y"
  shows "3652059 \<le> days_before_year y"
proof -
  define x where "x = y - 1"
  have "4 * (x div 4) \<ge> x - 3" "100 * (x div 100) \<le> x" "400 * (x div 400) \<ge> x - 399"
    by presburger+
  moreover have "9999 \<le> x" using assms by (simp add: x_def)
  ultimately have "3652059 \<le> x * 365 + x div 4 - x div 100 + x div 400" by linarith
  then show ?thesis by (simp add: days_before_year_def Let_def x_def)
qed

lemma ord2ymd_year_bound:
  assumes "1 \<le> n0" "n0 \<le> MAXORDINAL"
  shows "fst (ord2ymd n0) \<le> 9999"
proof (rule ccontr)
  assume "\<not> fst (ord2ymd n0) \<le> 9999"
  then have big: "10000 \<le> fst (ord2ymd n0)" by simp
  obtain y m d where o: "ord2ymd n0 = (y, m, d)" by (cases "ord2ymd n0")
  with ord2ymd_correct[OF assms(1)] have f: "1 \<le> m" "m \<le> 12" "1 \<le> d" "d \<le> days_in_month y m"
    "ymd2ord y m d = n0" by simp_all
  have "1 \<le> days_before_month y m + d" using day_of_year_bound(1)[OF f(1-4)] .
  moreover have "3652059 \<le> days_before_year y" using big o by (simp add: days_before_year_lower)
  ultimately have "3652060 \<le> ymd2ord y m d" by (simp add: ymd2ord_def)
  then show False using f(5) assms(2) by (simp add: MAXORDINAL_def)
qed

section \<open>Date strings\<close>

lemma digit_char_is_digit: "is_digit (digit_char n)"
  unfolding is_digit_def digit_char_def
  by (rule nth_mem) simp

lemma zero_is_digit: "is_digit CHR ''0''"
  by (simp add: is_digit_def)

lemma str_nat_digits: "list_all is_digit (str_nat n)"
proof (induction n rule: str_nat.induct)
  case (1 n)
  show ?case
  proof (cases "n < 10")
    case True
    then show ?thesis by (simp add: str_nat.simps[of n] digit_char_is_digit)
  next
    case False
    then show ?thesis using 1 by (simp add: str_nat.simps[of n] digit_char_is_digit)
  qed
qed

lemma str_nat_length_1: "n < 10 \<Longrightarrow> length (str_nat n) = 1"
  by (simp add: str_nat.simps[of n])

lemma str_nat_length_2: "n < 100 \<Longrightarrow> length (str_nat n) \<le> 2"
  by (simp add: str_nat.simps[of n] str_nat_length_1)

lemma str_nat_length_3: "n < 1000 \<Longrightarrow> length (str_nat n) \<le> 3"
proof -
  assume a: "n < 1000"
  then have "n div 10 < 100" by simp
  then have "length (str_nat (n div 10)) \<le> 2" by (rule str_nat_length_2)
  then show ?thesis by (simp add: str_nat.simps[of n])
qed

lemma str_nat_length_4: "n < 10000 \<Longrightarrow> length (str_nat n) \<le> 4"
proof -
  assume a: "n < 10000"
  then have "n div 10 < 1000" by simp
  then have "length (str_nat (n div 10)) \<le> 3" by (rule str_nat_length_3)
  then show ?thesis by (simp add: str_nat.simps[of n])
qed

lemma str_nat_length_Suc:
  "10 \<le> n \<Longrightarrow> length (str_nat n) = Suc (length (str_nat (n div 10)))"
  by (simp add: str_nat.simps[of n])

lemma str_nat_length_4_exact:
  assumes "1000 \<le> n" and "n < 10000"
  shows "length (str_nat n) = 4"
proof -
  have f: "100 \<le> n div 10" "10 \<le> n div 10 div 10" "n div 10 div 10 div 10 < 10"
    using assms by (simp_all add: less_eq_div_iff_mult_less_eq div_less_iff_less_mult)
  have 0: "10 \<le> n" using assms(1) by simp
  have 1: "10 \<le> n div 10" using f(1) by simp
  have "length (str_nat (n div 10 div 10 div 10)) = 1"
    using f(3) by (rule str_nat_length_1)
  then have "length (str_nat (n div 10 div 10)) = 2"
    using str_nat_length_Suc[OF f(2)] by simp
  then have "length (str_nat (n div 10)) = 3"
    using str_nat_length_Suc[OF 1] by simp
  then show ?thesis
    using str_nat_length_Suc[OF 0] by simp
qed

lemma zfill_digits:
  assumes "0 \<le> i" and "length (str_nat (nat i)) \<le> w"
  shows "length (zfill w (str_int i)) = w" and "list_all is_digit (zfill w (str_int i))"
  using assms str_nat_digits[of "nat i"]
  by (auto simp: zfill_def str_int_def zero_is_digit list_all_iff)

lemma strftime_Ymd_iso:
  assumes "1000 \<le> year d" "year d \<le> 9999" "1 \<le> month d" "month d \<le> 12"
    "1 \<le> day d" "day d \<le> 31"
  shows "iso_date (strftime_Ymd d)"
proof -
  let ?Y = "str_int (year d)"
  let ?M = "zfill 2 (str_int (month d))"
  let ?D = "zfill 2 (str_int (day d))"
  have "1000 \<le> nat (year d)" "nat (year d) < 10000" "nat (month d) < 100" "nat (day d) < 100"
    using assms by simp_all
  then have l: "length (str_nat (nat (year d))) = 4" "length (str_nat (nat (month d))) \<le> 2"
    "length (str_nat (nat (day d))) \<le> 2"
    by (simp_all add: str_nat_length_4_exact str_nat_length_2)
  have Y: "length ?Y = 4" "list_all is_digit ?Y"
    using l(1) assms(1) str_nat_digits[of "nat (year d)"] by (simp_all add: str_int_def)
  have M: "length ?M = 2" "list_all is_digit ?M"
    using zfill_digits[OF _ l(2)] assms(3) by simp_all
  have D: "length ?D = 2" "list_all is_digit ?D"
    using zfill_digits[OF _ l(3)] assms(5) by simp_all
  show ?thesis
    unfolding iso_date_def strftime_Ymd_def
    using Y M D by (simp add: nth_append)
qed

lemma days_in_month_le_31:
  assumes "1 \<le> m" "m \<le> 12"
  shows "days_in_month y m \<le> 31"
proof -
  have "m = 1 \<or> m = 2 \<or> m = 3 \<or> m = 4 \<or> m = 5 \<or> m = 6 \<or> m = 7 \<or> m = 8
      \<or> m = 9 \<or> m = 10 \<or> m = 11 \<or> m = 12"
    using assms by presburger
  then show ?thesis
    by (auto simp: days_in_month_def DAYS_IN_MONTH_def)
qed

lemma valid_datetime_iso:
  assumes "valid_datetime d" and "1000 \<le> year d"
  shows "iso_date (strftime_Ymd d)"
proof -
  have "day d \<le> 31"
    using assms(1) days_in_month_le_31[of "month d" "year d"] by (simp add: valid_datetime_def)
  then show ?thesis
    using assms by (intro strftime_Ymd_iso) (simp_all add: valid_datetime_def)
qed

lemma ymd2ord_before_1000:
  assumes "1 \<le> y" "y \<le> 999" "1 \<le> m" "m \<le> 12" "1 \<le> d" "d \<le> days_in_month y m"
  shows "ymd2ord y m d \<le> 364877"
proof -
  obtain a b c dd :: int where y: "y = 400 * a + 100 * b + 4 * c + dd + 1"
    and bd: "0 \<le> a" "0 \<le> b" "b \<le> 3" "0 \<le> c" "c \<le> 24" "0 \<le> dd" "dd \<le> 3"
    using year_cycle_decomposition[OF assms(1)] by metis
  have dby: "days_before_year y = 146097 * a + 36524 * b + 1461 * c + 365 * dd"
    unfolding y by (rule days_before_year_cycle) (use bd in simp_all)
  have lp: "is_leap y \<longleftrightarrow> dd = 3 \<and> (c \<noteq> 24 \<or> b = 3)"
    unfolding y by (rule is_leap_cycle) (use bd in simp_all)
  define L :: int where "L = (if is_leap y then 1 else 0)"
  have L: "0 \<le> L" "L \<le> 1" by (simp_all add: L_def)
  have doy: "days_before_month y m + d \<le> 365 + L"
    using day_of_year_bound(2)[OF assms(3-6)] by (simp add: L_def)
  have a2: "a \<le> 2" using y assms(2) bd by linarith
  have "146097 * a + 36524 * b + 1461 * c + 365 * dd + 365 + L \<le> 364877"
  proof (cases "a \<le> 1")
    case True
    then show ?thesis using bd L by linarith
  next
    case False
    then have a: "a = 2" using a2 by simp
    have b1: "b \<le> 1" using y assms(2) a bd by linarith
    show ?thesis
    proof (cases "b = 0")
      case True
      then show ?thesis using a bd L by linarith
    next
      case False
      then have b: "b = 1" using b1 bd by linarith
      show ?thesis
      proof (cases "c \<le> 23")
        case True
        then show ?thesis using a b bd L by linarith
      next
        case False
        then have c: "c = 24" using bd by linarith
        have "dd \<le> 2" using y assms(2) a b c by linarith
        then have "L = 0" using lp by (simp add: L_def)
        then show ?thesis using a b c \<open>dd \<le> 2\<close> by linarith
      qed
    qed
  qed
  then show ?thesis using doy dby by (simp add: ymd2ord_def)
qed

lemma year_at_least_1000:
  assumes "valid_datetime d" and "364878 \<le> toordinal d"
  shows "1000 \<le> year d"
proof (rule ccontr)
  assume "\<not> 1000 \<le> year d"
  then have "year d \<le> 999" by simp
  then have "ymd2ord (year d) (month d) (day d) \<le> 364877"
    using assms(1) by (intro ymd2ord_before_1000) (simp_all add: valid_datetime_def)
  then show False using assms(2) by (simp add: toordinal_def)
qed

lemma valid_datetime_toordinal:
  "valid_datetime d \<Longrightarrow> 1 \<le> toordinal d \<and> toordinal d \<le> MAXORDINAL"
  using ymd2ord_bounds[of "year d" "month d" "day d"]
  by (simp add: valid_datetime_def toordinal_def)

lemma sub_days_valid:
  assumes "valid_datetime d" and "0 \<le> k" and "k < toordinal d"
  shows "\<exists>d'. sub_days d k = Inr d' \<and> valid_datetime d' \<and> toordinal d' = toordinal d - k \<and>
           hour d' = hour d \<and> minute d' = minute d \<and> second d' = second d \<and>
           microsecond d' = microsecond d"
proof -
  let ?n = "toordinal d - k"
  have n: "1 \<le> ?n" "?n \<le> MAXORDINAL"
    using valid_datetime_toordinal[OF assms(1)] assms(2,3) by simp_all
  obtain y m dd where o: "ord2ymd ?n = (y, m, dd)" by (cases "ord2ymd ?n")
  with ord2ymd_correct[OF n(1)] have f: "1 \<le> y" "1 \<le> m" "m \<le> 12" "1 \<le> dd"
    "dd \<le> days_in_month y m" "ymd2ord y m dd = ?n" by simp_all
  have y: "y \<le> 9999" using ord2ymd_year_bound[OF n] o by simp
  let ?d' = "d\<lparr>year := y, month := m, day := dd\<rparr>"
  have "sub_days d k = Inr ?d'" using n o by (simp add: sub_days_def Let_def)
  moreover have "valid_datetime ?d'" using assms(1) f y by (simp add: valid_datetime_def)
  moreover have "toordinal ?d' = ?n" using f by (simp add: toordinal_def)
  ultimately show ?thesis by simp
qed

section \<open>The URLs of the two fetches\<close>

lemma quote_plus_safe: "list_all always_safe s \<Longrightarrow> quote_plus s = s"
  by (induction s) (simp_all add: quote_plus_def quote_char_def)

lemma digit_safe: "is_digit c \<Longrightarrow> always_safe c"
  by (auto simp: is_digit_def always_safe_def)

lemma str_nat_safe: "list_all always_safe (str_nat n)"
  using str_nat_digits[of n] by (auto simp: list_all_iff digit_safe)

lemma zero_dash_safe: "always_safe CHR ''0''" "always_safe CHR ''-''"
  by (simp_all add: always_safe_def)

lemma str_int_safe: "list_all always_safe (str_int i)"
  using str_nat_safe by (simp add: str_int_def zero_dash_safe)

lemma zfill_safe: "list_all always_safe s \<Longrightarrow> list_all always_safe (zfill w s)"
  by (auto simp: zfill_def list_all_iff zero_dash_safe)

lemma strftime_Ymd_safe: "list_all always_safe (strftime_Ymd d)"
  by (simp add: strftime_Ymd_def zfill_safe str_int_safe zero_dash_safe)

lemma quote_plus_keys:
  "quote_plus ''_'' = ''_''" "quote_plus ''startDate'' = ''startDate''"
  "quote_plus ''endDate'' = ''endDate''" "quote_plus ''fromDate'' = ''fromDate''"
  "quote_plus ''untilDate'' = ''untilDate''"
  by (simp_all add: quote_plus_def quote_char_def always_safe_def)

lemma str_int_metrics: "str_int 23 = ''23''" "str_int 41 = ''41''" "str_int 42 = ''42''"
  by (simp_all add: str_int_def str_nat.simps digit_char_def)

lemma weight_url_explicit:
  assumes "sub_days (now e) 30 = Inr start"
  shows "weight_url e None None =
     Inr (WEIGHT_DATE_RANGE_URL @ ''?_='' @ str_int (time_now e) @
          ''&startDate='' @ strftime_Ymd start @ ''&endDate='' @ strftime_Ymd (now e))"
  using assms
  by (simp add: weight_url_def Let_def urlencode_def quote_plus_keys
      quote_plus_safe[OF str_int_safe] quote_plus_safe[OF strftime_Ymd_safe])

lemma calories_url_explicit:
  "calories_url e c start end =
     WELLNESS_URL (username c) @ ''?'' @
     join ''&'' ([''_='' @ str_int (time_now e)] @
                 (case start of None \<Rightarrow> [] | Some d \<Rightarrow> [''fromDate='' @ strftime_Ymd d]) @
                 (case end of None \<Rightarrow> [] | Some d \<Rightarrow> [''untilDate='' @ strftime_Ymd d]) @
                 [''metricId=23'', ''metricId=41'', ''metricId=42''])"
  by (simp add: calories_url_def Let_def urlencode_def quote_plus_keys str_int_metrics
      quote_plus_safe[OF str_int_safe] quote_plus_safe[OF strftime_Ymd_safe]
      split: option.splits)

lemma fetch_json_sent:
  "session c = Some s \<Longrightarrow> sent (snd (snd (fetch_json e u c w))) = sent w @ [get_request u]"
  by (simp add: fetch_json_def session_get_request session_request_def Let_def log_msg_def
      split: option.splits)

section \<open>The example surroundings, evaluated\<close>

lemma example_now_valid: "valid_datetime example_now"
  by (simp add: valid_datetime_def example_now_def days_in_month_def DAYS_IN_MONTH_def)

lemma example_now_ordinal: "toordinal example_now = 738946"
  by (simp add: toordinal_def example_now_def ymd2ord_def days_before_year_def
      days_before_month_def DAYS_BEFORE_MONTH_def is_leap_def Let_def)

lemma example_now_minus_30:
  "sub_days example_now 30 = Inr (example_now\<lparr>year := 2024, month := 1, day := 31\<rparr>)"
proof -
  have "ord2ymd 738916 = (2024, 1, 31)"
    by (simp add: ord2ymd_def Let_def DAYS_BEFORE_MONTH_def DAYS_IN_MONTH_def)
  then show ?thesis
    by (simp add: sub_days_def Let_def example_now_ordinal MAXORDINAL_def)
qed

lemma example_date_strings:
  "strftime_Ymd example_now = ''2024-03-01''"
  "strftime_Ymd (example_now\<lparr>year := 2024, month := 1, day := 31\<rparr>) = ''2024-01-31''"
  "strftime_Ymd (ymd 2024 1 1) = ''2024-01-01''"
  "strftime_Ymd (ymd 2024 1 31) = ''2024-01-31''"
  by (simp_all add: strftime_Ymd_def example_now_def ymd_def zfill_def str_int_def
      str_nat.simps digit_char_def)

lemma early_date_string: "strftime_Ymd (ymd 999 1 1) = ''999-01-01''"
  by (simp add: strftime_Ymd_def ymd_def zfill_def str_int_def str_nat.simps digit_char_def)

lemma cutoff_ordinal: "toordinal (ymd 1000 1 31) = 364908"
  by (simp add: toordinal_def ymd_def ymd2ord_def days_before_year_def
      days_before_month_def DAYS_BEFORE_MONTH_def is_leap_def Let_def)

lemma example_time_string: "str_int 1700000000 = ''1700000000''"
  by (simp add: str_int_def str_nat.simps digit_char_def)

section \<open>The claims\<close>

text \<open>
  Claim C1, on the failing input. The login answers 401, so \<^verbatim>\<open>connect\<close> raises the
  \<^verbatim>\<open>ValueError\<close> of a failed authentication. The client then still holds the session that
  \<^verbatim>\<open>connect\<close> created before authenticating, and a \<^verbatim>\<open>get_weight\<close> that follows passes
  the check of \<^verbatim>\<open>require_session\<close>, sends its request and returns \<^verbatim>\<open>None\<close> for the 404
  it gets, where the claim has it raise the error of a client that is not connected.
\<close>

theorem fetch_after_failed_connect:
  "fst (connect (example_env [Some (reply 401 ''Unauthorized''), Some (reply 404 ''Not Found'')])
          (init ''alice'' ''wrong'') empty_world) =
     Inl (ValueError ''authentication failure: did you enter valid credentials?'') \<and>
   session (fst (snd (connect
          (example_env [Some (reply 401 ''Unauthorized''), Some (reply 404 ''Not Found'')])
          (init ''alice'' ''wrong'') empty_world))) = Some \<lparr>cookies = []\<rparr> \<and>
   fst (get_weight None None
          (example_env [Some (reply 401 ''Unauthorized''), Some (reply 404 ''Not Found'')])
          (fst (snd (connect
             (example_env [Some (reply 401 ''Unauthorized''), Some (reply 404 ''Not Found'')])
             (init ''alice'' ''wrong'') empty_world)))
          (snd (snd (connect
             (example_env [Some (reply 401 ''Unauthorized''), Some (reply 404 ''Not Found'')])
             (init ''alice'' ''wrong'') empty_world)))) = Inr JNull \<and>
   sent (snd (snd (get_weight None None
          (example_env [Some (reply 401 ''Unauthorized''), Some (reply 404 ''Not Found'')])
          (fst (snd (connect
             (example_env [Some (reply 401 ''Unauthorized''), Some (reply 404 ''Not Found'')])
             (init ''alice'' ''wrong'') empty_world)))
          (snd (snd (connect
             (example_env [Some (reply 401 ''Unauthorized''), Some (reply 404 ''Not Found'')])
             (init ''alice'' ''wrong'') empty_world)))))) =
     [login_request (init ''alice'' ''wrong''),
      get_request (WEIGHT_DATE_RANGE_URL @
                   ''?_=1700000000&startDate=2024-01-31&endDate=2024-03-01'')]"
proof -
  let ?e = "example_env [Some (reply 401 ''Unauthorized''), Some (reply 404 ''Not Found'')]"
  let ?c = "(init ''alice'' ''wrong'')\<lparr>session := Some \<lparr>cookies = []\<rparr>\<rparr>"
  let ?u = "WEIGHT_DATE_RANGE_URL @ ''?_=1700000000&startDate=2024-01-31&endDate=2024-03-01''"
  have l: "login_request ?c = login_request (init ''alice'' ''wrong'')"
    by (simp add: login_request_def)
  have 1: "session ?c = Some \<lparr>cookies = []\<rparr>" by simp
  have 2: "server ?e (sent empty_world @ [login_request ?c]) = Some (reply 401 ''Unauthorized'')"
    by (simp add: example_env_def scripted_def empty_world_def)
  have 3: "status_code (reply 401 ''Unauthorized'') \<noteq> 200" by (simp add: reply_def)
  define w1 where "w1 = empty_world\<lparr>sent := sent empty_world @ [login_request ?c],
        logs := logs empty_world @ [(INFO, ''authenticating user ...''),
                          (DEBUG, ''got auth response: '' @ resp_text (reply 401 ''Unauthorized''))]\<rparr>"
  have c: "connect ?e (init ''alice'' ''wrong'') empty_world =
      (Inl (ValueError ''authentication failure: did you enter valid credentials?''), ?c, w1)"
    using authenticate_login_rejected[OF 1 2 3]
    by (simp add: connect_def w1_def reply_def extract_cookies_def)
  have s1: "sent w1 = [login_request (init ''alice'' ''wrong'')]"
    by (simp add: w1_def empty_world_def l)
  have n: "now ?e = example_now" "time_now ?e = 1700000000"
    by (simp_all add: example_env_def)
  have u: "weight_url ?e None None = Inr ?u"
    using weight_url_explicit[of ?e, OF example_now_minus_30[folded n(1)]]
    by (simp add: n example_date_strings example_time_string)
  have 4: "server ?e (sent w1 @ [get_request ?u]) = Some (reply 404 ''Not Found'')"
    by (simp add: s1 example_env_def scripted_def)
  have 5: "status_code (reply 404 ''Not Found'') \<noteq> 200" by (simp add: reply_def)
  have g: "get_weight None None ?e ?c w1 = fetch_json ?e ?u ?c w1"
    using u by (simp add: get_weight_def require_session_def get_weight_body_def)
  have "fst (get_weight None None ?e ?c w1) = Inr JNull"
    "sent (snd (snd (get_weight None None ?e ?c w1))) = sent w1 @ [get_request ?u]"
    using fetch_json_response[OF 1 4] 5 by (simp_all add: g)
  then show ?thesis by (simp add: c s1)
qed

text \<open>
  Claim C2, as amended. When the login response has a status other than 200,
  \<^verbatim>\<open>_authenticate\<close> raises the \<^verbatim>\<open>ValueError\<close> of a failed authentication, the
  AuthenticationError of the specification, after the login request alone. The cookie jar
  of the session is then the jar before with the cookies of that response stored in it: it
  is unchanged when the response sets no cookie. The counterexample is a 403 response that
  sets a cookie, which the jar holds afterwards.
\<close>

theorem login_rejected_raises_and_keeps_response_cookies:
  assumes "session c = Some s" and "server e (sent w @ [login_request c]) = Some r"
    and "status_code r \<noteq> 200"
  shows "fst (authenticate e c w) =
           Inl (ValueError ''authentication failure: did you enter valid credentials?'') \<and>
         sent (snd (snd (authenticate e c w))) = sent w @ [login_request c] \<and>
         session (fst (snd (authenticate e c w))) =
           Some (s\<lparr>cookies := extract_cookies (set_cookies r) (cookies s)\<rparr>) \<and>
         (set_cookies r = [] \<longrightarrow> session (fst (snd (authenticate e c w))) = Some s)"
  using authenticate_login_rejected[OF assms]
  by (simp add: extract_cookies_def)

theorem login_rejected_raises_and_keeps_response_cookies_witness:
  "session example_client = Some \<lparr>cookies = []\<rparr> \<and>
   server (example_env [Some (reply 403 ''Forbidden'')])
     (sent empty_world @ [login_request example_client]) = Some (reply 403 ''Forbidden'') \<and>
   status_code (reply 403 ''Forbidden'') \<noteq> 200 \<and>
   set_cookies (reply 403 ''Forbidden'') = [] \<and>
   fst (authenticate (example_env [Some (reply 403 ''Forbidden'')]) example_client empty_world) =
     Inl (ValueError ''authentication failure: did you enter valid credentials?'') \<and>
   sent (snd (snd (authenticate (example_env [Some (reply 403 ''Forbidden'')])
                     example_client empty_world))) = [login_request example_client] \<and>
   session (fst (snd (authenticate (example_env [Some (reply 403 ''Forbidden'')])
                        example_client empty_world))) = Some \<lparr>cookies = []\<rparr>"
proof -
  let ?e = "example_env [Some (reply 403 ''Forbidden'')]"
  have 1: "session example_client = Some \<lparr>cookies = []\<rparr>"
    by (simp add: example_client_def)
  have 2: "server ?e (sent empty_world @ [login_request example_client])
             = Some (reply 403 ''Forbidden'')"
    by (simp add: example_env_def scripted_def empty_world_def)
  have 3: "status_code (reply 403 ''Forbidden'') \<noteq> 200"
    by (simp add: reply_def)
  have 4: "set_cookies (reply 403 ''Forbidden'') = []"
    by (simp add: reply_def)
  have 5: "sent empty_world = []" by (simp add: empty_world_def)
  show ?thesis
    using login_rejected_raises_and_keeps_response_cookies[OF 1 2 3] 1 2 3 4 5
    by (simp add: extract_cookies_def)
qed

theorem login_rejected_cookie_counterexample:
  "status_code \<lparr>status_code = 403, resp_text = ''Forbidden'',
                 set_cookies = [(''SESSIONID'', ''abc'')]\<rparr> \<noteq> 200 \<and>
   fst (authenticate
          (example_env [Some \<lparr>status_code = 403, resp_text = ''Forbidden'',
                               set_cookies = [(''SESSIONID'', ''abc'')]\<rparr>])
          example_client empty_world) =
     Inl (ValueError ''authentication failure: did you enter valid credentials?'') \<and>
   session example_client = Some \<lparr>cookies = []\<rparr> \<and>
   session (fst (snd (authenticate
          (example_env [Some \<lparr>status_code = 403, resp_text = ''Forbidden'',
                               set_cookies = [(''SESSIONID'', ''abc'')]\<rparr>])
          example_client empty_world))) = Some \<lparr>cookies = [(''SESSIONID'', ''abc'')]\<rparr>"
proof -
  let ?r = "\<lparr>status_code = 403, resp_text = ''Forbidden'',
              set_cookies = [(''SESSIONID'', ''abc'')]\<rparr>"
  have 1: "session example_client = Some \<lparr>cookies = []\<rparr>"
    by (simp add: example_client_def)
  have 2: "server (example_env [Some ?r]) (sent empty_world @ [login_request example_client])
             = Some ?r"
    by (simp add: example_env_def scripted_def empty_world_def)
  have 3: "status_code ?r \<noteq> 200" by simp
  show ?thesis
    using authenticate_login_rejected[OF 1 2 3] 1
    by (simp add: extract_cookies_def)
qed

text \<open>
  Claim C3, as amended. When the leftmost place of the response body where an assignment
  \<^verbatim>\<open>response_url = "https:..."\<close> stands (white space around \<^verbatim>\<open>=\<close> optional, the URL starting
  with \<^verbatim>\<open>https:\<close>, at least one character after it, no double quote inside) holds the URL
  \<open>url\<close>, the extractor returns \<open>url\<close> with every backslash removed. The witness is the body
  of the specification's example with escaped slashes; the counterexample shows that an
  assignment of an \<^verbatim>\<open>http:\<close> URL is not extracted but raises.
\<close>

theorem extract_leftmost_assignment:
  assumes "body = pre @ s" and "ticket_assignment_at s url"
    and "\<forall>j<length pre. \<forall>v. \<not> ticket_assignment_at (drop j body) v"
  shows "extract_auth_ticket_url body = Inr (filter (\<lambda>c. c \<noteq> backslash) url)"
proof -
  obtain rest where m: "re_match TICKET_PATTERN False [] s = Some (url, rest)"
    using assms(2) re_match_ticket_iff by blast
  have "re_search TICKET_PATTERN body = Some url"
  proof (rule re_search_first[of _ "length pre" _ _ rest])
    show "re_match TICKET_PATTERN False [] (drop (length pre) body) = Some (url, rest)"
      using m assms(1) by simp
    show "length pre \<le> length body" using assms(1) by simp
    show "re_match TICKET_PATTERN False [] (drop j body) = None" if "j < length pre" for j
      using assms(3) that by (simp add: re_match_ticket_None)
  qed
  then show ?thesis by (simp add: extract_auth_ticket_url_def)
qed

theorem extract_leftmost_assignment_witness:
  "''var response_url = '' @ [dquote] @ ''https:'' @ [backslash] @ ''/'' @ [backslash] @ ''/x/y?ticket=ABC'' @ [dquote] @ '';''
     = ''var '' @ (''response_url = '' @ [dquote] @ ''https:'' @ [backslash] @ ''/'' @ [backslash] @ ''/x/y?ticket=ABC'' @ [dquote] @ '';'') \<and>
   ticket_assignment_at
     (''response_url = '' @ [dquote] @ ''https:'' @ [backslash] @ ''/'' @ [backslash] @ ''/x/y?ticket=ABC'' @ [dquote] @ '';'')
     (''https:'' @ [backslash] @ ''/'' @ [backslash] @ ''/x/y?ticket=ABC'') \<and>
   list_all (\<lambda>j. \<not> (\<exists>v. ticket_assignment_at
      (drop j (''var response_url = '' @ [dquote] @ ''https:'' @ [backslash] @ ''/'' @ [backslash] @ ''/x/y?ticket=ABC'' @ [dquote] @ '';'')) v))
     [0 ..< length ''var ''] \<and>
   extract_auth_ticket_url
     (''var response_url = '' @ [dquote] @ ''https:'' @ [backslash] @ ''/'' @ [backslash] @ ''/x/y?ticket=ABC'' @ [dquote] @ '';'')
     = Inr ''https://x/y?ticket=ABC''"
proof -
  let ?url = "''https:'' @ [backslash] @ ''/'' @ [backslash] @ ''/x/y?ticket=ABC''"
  let ?s = "''response_url = '' @ [dquote] @ ?url @ [dquote] @ '';''"
  let ?body = "''var response_url = '' @ [dquote] @ ?url @ [dquote] @ '';''"
  have 1: "?body = ''var '' @ ?s" by simp
  have 2: "ticket_assignment_at ?s ?url"
    unfolding ticket_assignment_at_def
    apply (rule exI[of _ "'' ''"], rule exI[of _ "'' ''"])
    apply (rule exI[of _ "[backslash] @ ''/'' @ [backslash] @ ''/x/y?ticket=ABC''"])
    apply (rule exI[of _ "'';''"])
    apply (simp add: is_space_def dquote_def backslash_def)
    done
  have 3: "\<forall>j<length ''var ''. \<forall>v. \<not> ticket_assignment_at (drop j ?body) v"
  proof (intro allI impI)
    fix j :: nat and v assume "j < length ''var ''"
    then have "j = 0 \<or> j = 1 \<or> j = 2 \<or> j = 3" by auto
    then have "\<not> prefix ''response_url'' (drop j ?body)" by auto
    then show "\<not> ticket_assignment_at (drop j ?body) v"
      using ticket_assignment_prefix by blast
  qed
  have "filter (\<lambda>c. c \<noteq> backslash) ?url = ''https://x/y?ticket=ABC''"
    by (simp add: backslash_def)
  moreover have "list_all (\<lambda>j. \<not> (\<exists>v. ticket_assignment_at (drop j ?body) v))
      [0 ..< length ''var '']"
    unfolding list_all_iff
  proof (rule ballI)
    fix j assume "j \<in> set [0 ..< length ''var '']"
    then have "j < length ''var ''" by auto
    with 3 show "\<not> (\<exists>v. ticket_assignment_at (drop j ?body) v)" by blast
  qed
  ultimately show ?thesis
    using extract_leftmost_assignment[OF 1 2 3] 1 2 by simp
qed

theorem extract_http_url_counterexample:
  "extract_auth_ticket_url (''response_url = '' @ [dquote] @ ''http://x/y?ticket=ABC'' @ [dquote])
     = Inl (RuntimeError ''auth failure: unable to extract auth ticket URL'')"
  by code_simp

text \<open>
  Claim C4. A client just constructed and a client after \<^verbatim>\<open>disconnect\<close> hold no session,
  and on a client that holds no session both fetch methods raise
  \<^verbatim>\<open>Exception('Attempt to use GarminClient without being connected.')\<close>, the
  NotConnectedError of the specification, leaving the client and the record of requests
  sent as they were.
\<close>

theorem fetch_without_session_fails_before_any_request:
  "session (init u p) = None \<and> session (disconnect c0) = None \<and>
   (session c = None \<longrightarrow>
      get_weight start end e c w =
        (Inl (PyException ''Attempt to use GarminClient without being connected.''), c, w) \<and>
      get_calories start end e c w =
        (Inl (PyException ''Attempt to use GarminClient without being connected.''), c, w))"
  by (simp add: init_def disconnect_def get_weight_def get_calories_def require_session_def)

theorem fetch_without_session_fails_before_any_request_witness:
  "session (disconnect example_client) = None \<and>
   get_weight None None (example_env []) (disconnect example_client) empty_world =
     (Inl (PyException ''Attempt to use GarminClient without being connected.''),
      disconnect example_client, empty_world) \<and>
   get_calories None None (example_env []) (disconnect example_client) empty_world =
     (Inl (PyException ''Attempt to use GarminClient without being connected.''),
      disconnect example_client, empty_world)"
proof -
  note t = fetch_without_session_fails_before_any_request
    [of "''alice''" "''secret''" example_client "disconnect example_client" None None
        "example_env []" empty_world]
  from t have 1: "session (disconnect example_client) = None" by simp
  from t 1 show ?thesis by simp
qed

text \<open>
  Claim C5. When the clock reads a valid date and time on or after 31 January 1000,
  \<^verbatim>\<open>get_weight\<close> without bounds on a client with a session sends one request, to the
  weight endpoint with the query \<^verbatim>\<open>_\<close>, \<^verbatim>\<open>startDate\<close>, \<^verbatim>\<open>endDate\<close>. The end date is the
  date of the clock reading, the start date is the date whose ordinal is 30 less, and both
  are printed as \<^verbatim>\<open>YYYY-MM-DD\<close> with nothing of the time of day.
\<close>

theorem default_weight_window:
  assumes "valid_datetime (now e)" and "toordinal (ymd 1000 1 31) \<le> toordinal (now e)"
    and "session c = Some s"
  shows "\<exists>start u.
           sub_days (now e) 30 = Inr start \<and>
           toordinal start = toordinal (now e) - 30 \<and>
           u = WEIGHT_DATE_RANGE_URL @ ''?_='' @ str_int (time_now e) @
               ''&startDate='' @ strftime_Ymd start @ ''&endDate='' @ strftime_Ymd (now e) \<and>
           weight_url e None None = Inr u \<and>
           sent (snd (snd (get_weight None None e c w))) = sent w @ [get_request u] \<and>
           iso_date (strftime_Ymd start) \<and> iso_date (strftime_Ymd (now e))"
proof -
  have o: "364908 \<le> toordinal (now e)" using assms(2) by (simp add: cutoff_ordinal)
  obtain start where s: "sub_days (now e) 30 = Inr start" "valid_datetime start"
    "toordinal start = toordinal (now e) - 30"
    using sub_days_valid[OF assms(1), of 30] o by auto
  have y: "1000 \<le> year start" "1000 \<le> year (now e)"
    using s(2,3) assms(1) o by (simp_all add: year_at_least_1000)
  let ?u = "WEIGHT_DATE_RANGE_URL @ ''?_='' @ str_int (time_now e) @
               ''&startDate='' @ strftime_Ymd start @ ''&endDate='' @ strftime_Ymd (now e)"
  have u: "weight_url e None None = Inr ?u"
    using weight_url_explicit[OF s(1)] .
  have "get_weight None None e c w = fetch_json e ?u c w"
    using assms(3) u by (simp add: get_weight_def require_session_def get_weight_body_def)
  then have "sent (snd (snd (get_weight None None e c w))) = sent w @ [get_request ?u]"
    using fetch_json_sent[OF assms(3)] by simp
  moreover have "iso_date (strftime_Ymd start)" "iso_date (strftime_Ymd (now e))"
    using s(2) assms(1) y by (simp_all add: valid_datetime_iso)
  ultimately show ?thesis using s(1,3) u by blast
qed

theorem default_weight_window_witness:
  "valid_datetime (now (example_env [])) \<and>
   toordinal (ymd 1000 1 31) \<le> toordinal (now (example_env [])) \<and>
   session example_client = Some \<lparr>cookies = []\<rparr> \<and>
   weight_url (example_env []) None None =
     Inr (WEIGHT_DATE_RANGE_URL @ ''?_=1700000000&startDate=2024-01-31&endDate=2024-03-01'') \<and>
   sent (snd (snd (get_weight None None (example_env []) example_client empty_world))) =
     [get_request
        (WEIGHT_DATE_RANGE_URL @ ''?_=1700000000&startDate=2024-01-31&endDate=2024-03-01'')] \<and>
   iso_date ''2024-01-31'' \<and> iso_date ''2024-03-01''"
proof -
  let ?e = "example_env []"
  have n: "now ?e = example_now" "time_now ?e = 1700000000"
    by (simp_all add: example_env_def)
  have 1: "valid_datetime (now ?e)" by (simp add: n example_now_valid)
  have 2: "toordinal (ymd 1000 1 31) \<le> toordinal (now ?e)"
    by (simp add: n example_now_ordinal cutoff_ordinal)
  have 3: "session example_client = Some \<lparr>cookies = []\<rparr>"
    by (simp add: example_client_def)
  have 4: "sent empty_world = []" by (simp add: empty_world_def)
  from default_weight_window[OF 1 2 3, of empty_world]
  obtain start u where h: "sub_days (now ?e) 30 = Inr start"
    "u = WEIGHT_DATE_RANGE_URL @ ''?_='' @ str_int (time_now ?e) @
               ''&startDate='' @ strftime_Ymd start @ ''&endDate='' @ strftime_Ymd (now ?e)"
    "weight_url ?e None None = Inr u"
    "sent (snd (snd (get_weight None None ?e example_client empty_world))) =
       sent empty_world @ [get_request u]"
    "iso_date (strftime_Ymd start)" "iso_date (strftime_Ymd (now ?e))"
    by blast
  from h(1) have st: "start = example_now\<lparr>year := 2024, month := 1, day := 31\<rparr>"
    by (simp add: n example_now_minus_30)
  with h(2) have "u = WEIGHT_DATE_RANGE_URL @
      ''?_=1700000000&startDate=2024-01-31&endDate=2024-03-01''"
    by (simp add: n example_date_strings example_time_string)
  moreover have "iso_date ''2024-01-31''" "iso_date ''2024-03-01''"
    using h(5,6) st by (simp_all add: n example_date_strings)
  ultimately show ?thesis using h(3,4) 1 2 3 4 by simp
qed

text \<open>
  Claim C6, as amended. On a client with a session \<^verbatim>\<open>get_calories\<close> sends one request, whose
  URL is the wellness URL of the user, \<^verbatim>\<open>?\<close>, and the parameters joined by \<^verbatim>\<open>&\<close>: first
  \<^verbatim>\<open>_\<close>, then \<^verbatim>\<open>fromDate\<close> when and only when a start is given, then \<^verbatim>\<open>untilDate\<close> when and
  only when an end is given, and last \<^verbatim>\<open>metricId=23\<close>, \<^verbatim>\<open>metricId=41\<close>, \<^verbatim>\<open>metricId=42\<close> in
  this order. A valid date of year 1000 or later is printed as \<^verbatim>\<open>YYYY-MM-DD\<close>. The
  counterexample is a start on 1 January 999, which is printed as \<^verbatim>\<open>999-01-01\<close>, with
  a year of three digits.
\<close>

theorem calories_query_string:
  assumes "session c = Some s"
  shows "sent (snd (snd (get_calories start end e c w))) =
           sent w @ [get_request (calories_url e c start end)] \<and>
         calories_url e c start end =
           WELLNESS_URL (username c) @ ''?'' @
           join ''&'' ([''_='' @ str_int (time_now e)] @
                       (case start of None \<Rightarrow> [] | Some d \<Rightarrow> [''fromDate='' @ strftime_Ymd d]) @
                       (case end of None \<Rightarrow> [] | Some d \<Rightarrow> [''untilDate='' @ strftime_Ymd d]) @
                       [''metricId=23'', ''metricId=41'', ''metricId=42'']) \<and>
         (\<forall>d. (start = Some d \<or> end = Some d) \<and> valid_datetime d \<and> 1000 \<le> year d \<longrightarrow>
              iso_date (strftime_Ymd d))"
proof -
  have "get_calories start end e c w = fetch_json e (calories_url e c start end) c w"
    using assms by (simp add: get_calories_def require_session_def get_calories_body_def)
  then have "sent (snd (snd (get_calories start end e c w))) =
           sent w @ [get_request (calories_url e c start end)]"
    using fetch_json_sent[OF assms] by simp
  then show ?thesis
    using calories_url_explicit[of e c start "end"] by (simp add: valid_datetime_iso)
qed

theorem calories_query_string_witness:
  "session example_client = Some \<lparr>cookies = []\<rparr> \<and>
   valid_datetime (ymd 2024 1 1) \<and> valid_datetime (ymd 2024 1 31) \<and>
   1000 \<le> year (ymd 2024 1 1) \<and> 1000 \<le> year (ymd 2024 1 31) \<and>
   iso_date (strftime_Ymd (ymd 2024 1 1)) \<and> iso_date (strftime_Ymd (ymd 2024 1 31)) \<and>
   calories_url (example_env []) example_client (Some (ymd 2024 1 1)) (Some (ymd 2024 1 31)) =
     WELLNESS_URL ''alice'' @
     ''?_=1700000000&fromDate=2024-01-01&untilDate=2024-01-31&metricId=23&metricId=41&metricId=42'' \<and>
   sent (snd (snd (get_calories (Some (ymd 2024 1 1)) (Some (ymd 2024 1 31)) (example_env [])
                     example_client empty_world))) =
     [get_request (WELLNESS_URL ''alice'' @
     ''?_=1700000000&fromDate=2024-01-01&untilDate=2024-01-31&metricId=23&metricId=41&metricId=42'')]"
proof -
  let ?e = "example_env []"
  have 1: "session example_client = Some \<lparr>cookies = []\<rparr>"
    by (simp add: example_client_def)
  have v: "valid_datetime (ymd 2024 1 1)" "valid_datetime (ymd 2024 1 31)"
    by (simp_all add: valid_datetime_def ymd_def days_in_month_def DAYS_IN_MONTH_def)
  have y: "1000 \<le> year (ymd 2024 1 1)" "1000 \<le> year (ymd 2024 1 31)"
    by (simp_all add: ymd_def)
  note t = calories_query_string[OF 1, of "Some (ymd 2024 1 1)" "Some (ymd 2024 1 31)" ?e empty_world]
  have i: "iso_date (strftime_Ymd (ymd 2024 1 1))" "iso_date (strftime_Ymd (ymd 2024 1 31))"
    using t v y by blast+
  have u: "calories_url ?e example_client (Some (ymd 2024 1 1)) (Some (ymd 2024 1 31)) =
     WELLNESS_URL ''alice'' @
     ''?_=1700000000&fromDate=2024-01-01&untilDate=2024-01-31&metricId=23&metricId=41&metricId=42''"
    using t by (simp add: example_env_def example_client_def example_date_strings
        example_time_string)
  have "sent (snd (snd (get_calories (Some (ymd 2024 1 1)) (Some (ymd 2024 1 31)) ?e
                     example_client empty_world))) =
         sent empty_world @ [get_request (calories_url ?e example_client
            (Some (ymd 2024 1 1)) (Some (ymd 2024 1 31)))]"
    using t by (rule conjunct1)
  then show ?thesis using 1 v y i u by (simp add: empty_world_def)
qed

theorem calories_early_year_counterexample:
  "valid_datetime (ymd 999 1 1) \<and>
   calories_url (example_env []) example_client (Some (ymd 999 1 1)) None =
     WELLNESS_URL ''alice'' @
     ''?_=1700000000&fromDate=999-01-01&metricId=23&metricId=41&metricId=42'' \<and>
   \<not> iso_date ''999-01-01''"
proof -
  have v: "valid_datetime (ymd 999 1 1)"
    by (simp add: valid_datetime_def ymd_def days_in_month_def DAYS_IN_MONTH_def)
  have u: "calories_url (example_env []) example_client (Some (ymd 999 1 1)) None =
     WELLNESS_URL ''alice'' @
     ''?_=1700000000&fromDate=999-01-01&metricId=23&metricId=41&metricId=42''"
    by (simp add: calories_url_explicit example_env_def example_client_def early_date_string
        example_time_string)
  have n: "\<not> iso_date ''999-01-01''"
    by (simp add: iso_date_def)
  show ?thesis using v u n by simp
qed

text \<open>
  Claim C7. When no place of the response body holds a ticket assignment, the extractor
  raises \<^verbatim>\<open>RuntimeError('auth failure: unable to extract auth ticket URL')\<close>, the
  ProtocolError of the specification, and so does \<^verbatim>\<open>_authenticate\<close> when the login answers 200
  with such a body; the login request is then the only request sent.
\<close>

theorem authenticate_fails_without_assignment:
  assumes "\<not> has_ticket_assignment body"
  shows "extract_auth_ticket_url body =
           Inl (RuntimeError ''auth failure: unable to extract auth ticket URL'') \<and>
         (\<forall>(e::env) (c::client) (w::world) s r.
            session c = Some s \<and> server e (sent w @ [login_request c]) = Some r \<and>
            status_code r = 200 \<and> resp_text r = body \<longrightarrow>
            fst (authenticate e c w) =
              Inl (RuntimeError ''auth failure: unable to extract auth ticket URL'') \<and>
            sent (snd (snd (authenticate e c w))) = sent w @ [login_request c])"
proof -
  have x: "extract_auth_ticket_url body =
           Inl (RuntimeError ''auth failure: unable to extract auth ticket URL'')"
    using assms by (simp add: extract_fails_iff)
  show ?thesis
  proof (intro conjI allI impI)
    show "extract_auth_ticket_url body =
           Inl (RuntimeError ''auth failure: unable to extract auth ticket URL'')"
      by (rule x)
  next
    fix e :: env and c :: client and w :: world and s r
    assume h: "session c = Some s \<and> server e (sent w @ [login_request c]) = Some r \<and>
            status_code r = 200 \<and> resp_text r = body"
    then have "extract_auth_ticket_url (resp_text r) =
           Inl (RuntimeError ''auth failure: unable to extract auth ticket URL'')"
      using x by simp
    from authenticate_no_ticket[OF _ _ _ this, of c s e w] h
    show "fst (authenticate e c w) =
              Inl (RuntimeError ''auth failure: unable to extract auth ticket URL'')"
      and "sent (snd (snd (authenticate e c w))) = sent w @ [login_request c]"
      by simp_all
  qed
qed

theorem authenticate_fails_without_assignment_witness:
  "\<not> has_ticket_assignment ''<html>Sign in</html>'' \<and>
   extract_auth_ticket_url ''<html>Sign in</html>'' =
     Inl (RuntimeError ''auth failure: unable to extract auth ticket URL'') \<and>
   session example_client = Some \<lparr>cookies = []\<rparr> \<and>
   server (example_env [Some (reply 200 ''<html>Sign in</html>'')])
     (sent empty_world @ [login_request example_client])
     = Some (reply 200 ''<html>Sign in</html>'') \<and>
   status_code (reply 200 ''<html>Sign in</html>'') = 200 \<and>
   resp_text (reply 200 ''<html>Sign in</html>'') = ''<html>Sign in</html>'' \<and>
   fst (authenticate (example_env [Some (reply 200 ''<html>Sign in</html>'')])
          example_client empty_world) =
     Inl (RuntimeError ''auth failure: unable to extract auth ticket URL'') \<and>
   sent (snd (snd (authenticate (example_env [Some (reply 200 ''<html>Sign in</html>'')])
          example_client empty_world))) = [login_request example_client]"
proof -
  let ?b = "''<html>Sign in</html>''"
  let ?e = "example_env [Some (reply 200 ?b)]"
  have h: "\<not> has_ticket_assignment ?b"
    using has_ticket_assignment_underscore[of ?b] by auto
  have p: "session example_client = Some \<lparr>cookies = []\<rparr> \<and>
      server ?e (sent empty_world @ [login_request example_client]) = Some (reply 200 ?b) \<and>
      status_code (reply 200 ?b) = 200 \<and> resp_text (reply 200 ?b) = ?b"
    by (simp add: example_client_def example_env_def scripted_def empty_world_def reply_def)
  note t = authenticate_fails_without_assignment[OF h]
  from t have 1: "extract_auth_ticket_url ?b =
     Inl (RuntimeError ''auth failure: unable to extract auth ticket URL'')"
    by (rule conjunct1)
  from t have "session example_client = Some \<lparr>cookies = []\<rparr> \<and>
      server ?e (sent empty_world @ [login_request example_client]) = Some (reply 200 ?b) \<and>
      status_code (reply 200 ?b) = 200 \<and> resp_text (reply 200 ?b) = ?b \<longrightarrow>
      fst (authenticate ?e example_client empty_world) =
        Inl (RuntimeError ''auth failure: unable to extract auth ticket URL'') \<and>
      sent (snd (snd (authenticate ?e example_client empty_world))) =
        sent empty_world @ [login_request example_client]"
    by blast
  with p have 2: "fst (authenticate ?e example_client empty_world) =
        Inl (RuntimeError ''auth failure: unable to extract auth ticket URL'') \<and>
      sent (snd (snd (authenticate ?e example_client empty_world))) =
        sent empty_world @ [login_request example_client]"
    by blast
  have 3: "sent empty_world = []" by (simp add: empty_world_def)
  show ?thesis using h p 1 2 3 by simp
qed

text \<open>
  Claim C8. On a client with a session, when the service answers the request of
  \<^verbatim>\<open>get_weight\<close> or of \<^verbatim>\<open>get_calories\<close>: a status other than 200 gives \<^verbatim>\<open>None\<close> and one
  error record in the log that holds the status and the body, and a status 200 gives what
  \<^verbatim>\<open>json.loads\<close> makes of the body.
\<close>

theorem fetch_status_handling:
  assumes "session c = Some s" and "server e (sent w @ [get_request u]) = Some r"
    and "weight_url e start end = Inr u \<and> res = get_weight start end e c w \<or>
         calories_url e c start end = u \<and> res = get_calories start end e c w"
  shows "fst res = (if status_code r \<noteq> 200 then Inr JNull
                    else (case json_loads e (resp_text r) of
                            None \<Rightarrow> Inl JSONDecodeError | Some j \<Rightarrow> Inr j)) \<and>
         logs (snd (snd res)) =
           (if status_code r \<noteq> 200
            then logs w @ [(ERROR, ''failed to fetch json summary: code='' @
                                   str_int (status_code r) @ '' text='' @ resp_text r)]
            else logs w) \<and>
         sent (snd (snd res)) = sent w @ [get_request u]"
  using assms(3) fetch_json_response[OF assms(1,2)] assms(1)
  by (auto simp: get_weight_def get_calories_def require_session_def get_weight_body_def
      get_calories_body_def fetch_failure_def)

theorem fetch_status_handling_witness:
  "session example_client = Some \<lparr>cookies = []\<rparr> \<and>
   server (example_env [Some (reply 404 ''Not Found'')])
     (sent empty_world @
        [get_request (calories_url (example_env [Some (reply 404 ''Not Found'')])
                        example_client None None)])
     = Some (reply 404 ''Not Found'') \<and>
   fst (get_calories None None (example_env [Some (reply 404 ''Not Found'')])
          example_client empty_world) = Inr JNull \<and>
   logs (snd (snd (get_calories None None (example_env [Some (reply 404 ''Not Found'')])
          example_client empty_world))) =
     [(ERROR, ''failed to fetch json summary: code=404 text=Not Found'')]"
proof -
  let ?e = "example_env [Some (reply 404 ''Not Found'')]"
  let ?u = "calories_url ?e example_client None None"
  have 1: "session example_client = Some \<lparr>cookies = []\<rparr>"
    by (simp add: example_client_def)
  have 2: "server ?e (sent empty_world @ [get_request ?u]) = Some (reply 404 ''Not Found'')"
    by (simp add: example_env_def scripted_def empty_world_def)
  have 3: "weight_url ?e None None = Inr ?u \<and>
             get_calories None None ?e example_client empty_world =
               get_weight None None ?e example_client empty_world \<or>
           calories_url ?e example_client None None = ?u \<and>
             get_calories None None ?e example_client empty_world =
               get_calories None None ?e example_client empty_world"
    by simp
  have 4: "status_code (reply 404 ''Not Found'') = 404" "resp_text (reply 404 ''Not Found'') = ''Not Found''"
    "logs empty_world = []"
    by (simp_all add: reply_def empty_world_def)
  show ?thesis
    using fetch_status_handling[OF 1 2 3] 1 2 4
    by (simp add: str_int_404)
qed

text \<open>
  Claim C9. When the login answers 200 with a ticket URL and the ticket claim answers 200,
  \<^verbatim>\<open>_authenticate\<close> returns normally whatever the status of the response of the legacy
  session endpoint, and the request to that endpoint is the last of the three requests
  sent. In the witness that response has status 500.
\<close>

theorem warm_up_status_ignored:
  assumes "session c = Some s"
    and "server e (sent w @ [login_request c]) = Some r1" and "status_code r1 = 200"
    and "extract_auth_ticket_url (resp_text r1) = Inr u"
    and "server e (sent w @ [login_request c, get_request u]) = Some r2"
    and "status_code r2 = 200"
    and "server e (sent w @ [login_request c, get_request u, get_request LEGACY_SESSION_URL])
           = Some r3"
  shows "fst (authenticate e c w) = Inr () \<and>
         sent (snd (snd (authenticate e c w))) =
           sent w @ [login_request c, get_request u, get_request LEGACY_SESSION_URL]"
  using authenticate_success[OF assms] by simp

theorem warm_up_status_ignored_witness:
  "session example_client = Some \<lparr>cookies = []\<rparr> \<and>
   server (example_env [Some (reply 200 login_page), Some (reply 200 ''''),
                        Some (reply 500 ''Internal Server Error'')])
     (sent empty_world @ [login_request example_client]) = Some (reply 200 login_page) \<and>
   status_code (reply 200 login_page) = 200 \<and>
   extract_auth_ticket_url (resp_text (reply 200 login_page)) = Inr ticket_url \<and>
   server (example_env [Some (reply 200 login_page), Some (reply 200 ''''),
                        Some (reply 500 ''Internal Server Error'')])
     (sent empty_world @ [login_request example_client, get_request ticket_url])
     = Some (reply 200 '''') \<and>
   status_code (reply 200 '''') = 200 \<and>
   server (example_env [Some (reply 200 login_page), Some (reply 200 ''''),
                        Some (reply 500 ''Internal Server Error'')])
     (sent empty_world @ [login_request example_client, get_request ticket_url,
                          get_request LEGACY_SESSION_URL])
     = Some (reply 500 ''Internal Server Error'') \<and>
   status_code (reply 500 ''Internal Server Error'') = 500 \<and>
   fst (authenticate (example_env [Some (reply 200 login_page), Some (reply 200 ''''),
                                   Some (reply 500 ''Internal Server Error'')])
          example_client empty_world) = Inr () \<and>
   sent (snd (snd (authenticate (example_env [Some (reply 200 login_page), Some (reply 200 ''''),
                                   Some (reply 500 ''Internal Server Error'')])
          example_client empty_world))) =
     [login_request example_client, get_request ticket_url, get_request LEGACY_SESSION_URL]"
proof -
  let ?e = "example_env [Some (reply 200 login_page), Some (reply 200 ''''),
                         Some (reply 500 ''Internal Server Error'')]"
  have 1: "session example_client = Some \<lparr>cookies = []\<rparr>"
    by (simp add: example_client_def)
  have 2: "server ?e (sent empty_world @ [login_request example_client])
             = Some (reply 200 login_page)"
    by (simp add: example_env_def scripted_def empty_world_def)
  have 3: "status_code (reply 200 login_page) = 200"
    by (simp add: reply_def)
  have 4: "extract_auth_ticket_url (resp_text (reply 200 login_page)) = Inr ticket_url"
    by (simp add: reply_def extract_login_page)
  have 5: "server ?e (sent empty_world @ [login_request example_client, get_request ticket_url])
             = Some (reply 200 '''')"
    by (simp add: example_env_def scripted_def empty_world_def)
  have 6: "status_code (reply 200 '''') = 200"
    by (simp add: reply_def)
  have 7: "server ?e (sent empty_world @ [login_request example_client, get_request ticket_url,
                          get_request LEGACY_SESSION_URL])
             = Some (reply 500 ''Internal Server Error'')"
    by (simp add: example_env_def scripted_def empty_world_def)
  have 8: "status_code (reply 500 ''Internal Server Error'') = 500"
    by (simp add: reply_def)
  have 9: "sent empty_world = []" by (simp add: empty_world_def)
  show ?thesis
    using warm_up_status_ignored[OF 1 2 3 4 5 6 7] 1 2 3 4 5 6 7 8 9
    by simp
qed

text \<open>
  Claim C10, as amended. On a client with a session, when the service answers 200 with a
  body that \<^verbatim>\<open>json.loads\<close> rejects, both fetch methods raise the parse error. \<^verbatim>\<open>None\<close> is
  the result exactly when the status is not 200 or the body parses to the JSON value
  \<^verbatim>\<open>null\<close>. The counterexample is a 200 response with the body \<^verbatim>\<open>null\<close>, whose result
  is \<^verbatim>\<open>None\<close>.
\<close>

theorem fetch_null_result:
  assumes "session c = Some s" and "server e (sent w @ [get_request u]) = Some r"
    and "weight_url e start end = Inr u \<and> res = get_weight start end e c w \<or>
         calories_url e c start end = u \<and> res = get_calories start end e c w"
  shows "(status_code r = 200 \<and> json_loads e (resp_text r) = None \<longrightarrow>
            fst res = Inl JSONDecodeError) \<and>
         (fst res = Inr JNull \<longleftrightarrow>
            status_code r \<noteq> 200 \<or> json_loads e (resp_text r) = Some JNull)"
  using assms(3) fetch_json_response[OF assms(1,2)] assms(1)
  by (auto simp: get_weight_def get_calories_def require_session_def get_weight_body_def
      get_calories_body_def split: option.splits)

theorem fetch_null_result_witness:
  "session example_client = Some \<lparr>cookies = []\<rparr> \<and>
   server (example_env [Some (reply 200 ''<html>Maintenance</html>'')])
     (sent empty_world @
        [get_request (calories_url (example_env [Some (reply 200 ''<html>Maintenance</html>'')])
                        example_client None None)])
     = Some (reply 200 ''<html>Maintenance</html>'') \<and>
   status_code (reply 200 ''<html>Maintenance</html>'') = 200 \<and>
   json_loads (example_env [Some (reply 200 ''<html>Maintenance</html>'')])
     (resp_text (reply 200 ''<html>Maintenance</html>'')) = None \<and>
   fst (get_calories None None (example_env [Some (reply 200 ''<html>Maintenance</html>'')])
          example_client empty_world) = Inl JSONDecodeError"
proof -
  let ?r = "reply 200 ''<html>Maintenance</html>''"
  let ?e = "example_env [Some ?r]"
  let ?u = "calories_url ?e example_client None None"
  have 1: "session example_client = Some \<lparr>cookies = []\<rparr>"
    by (simp add: example_client_def)
  have 2: "server ?e (sent empty_world @ [get_request ?u]) = Some ?r"
    by (simp add: example_env_def scripted_def empty_world_def)
  have 3: "weight_url ?e None None = Inr ?u \<and>
             get_calories None None ?e example_client empty_world =
               get_weight None None ?e example_client empty_world \<or>
           calories_url ?e example_client None None = ?u \<and>
             get_calories None None ?e example_client empty_world =
               get_calories None None ?e example_client empty_world"
    by simp
  have 4: "status_code ?r = 200" by (simp add: reply_def)
  have 5: "json_loads ?e (resp_text ?r) = None"
    by (simp add: example_env_def example_loads_def reply_def)
  show ?thesis
    using fetch_null_result[OF 1 2 3] 1 2 4 5
    by simp
qed

theorem fetch_null_on_200_counterexample:
  "status_code (reply 200 ''null'') = 200 \<and>
   fst (get_calories None None (example_env [Some (reply 200 ''null'')])
          example_client empty_world) = Inr JNull"
proof -
  let ?e = "example_env [Some (reply 200 ''null'')]"
  let ?u = "calories_url ?e example_client None None"
  have 1: "session example_client = Some \<lparr>cookies = []\<rparr>"
    by (simp add: example_client_def)
  have 2: "server ?e (sent empty_world @ [get_request ?u]) = Some (reply 200 ''null'')"
    by (simp add: example_env_def scripted_def empty_world_def)
  have 3: "json_loads ?e (resp_text (reply 200 ''null'')) = Some JNull"
    by (simp add: example_env_def example_loads_def reply_def)
  have 4: "status_code (reply 200 ''null'') = 200" by (simp add: reply_def)
  show ?thesis
    using fetch_json_response[OF 1 2] 1 3 4
    by (simp add: get_calories_def require_session_def get_calories_body_def)
qed

end
